theory Spec2Isabelle
  imports Main "HOL-Library.Char_ord" "HOL-Library.List_Lexorder" "HOL-Library.Sublist"
begin

section \<open>JavaScript values\<close>

text \<open>
  The service \<^verbatim>\<open>ProjectPackageJson\<close> keeps the manifest in \<^verbatim>\<open>this.raw\<close>, a plain
  JavaScript object, and reads and writes its properties dynamically. The values the
  service inspects are undefined, null, booleans, strings and plain objects; numbers and
  arrays, which it only passes through, are left out of the model. A string is a list of
  code units, restricted here to the 8-bit range.

  An object is the list of its own enumerable properties in the order in which
  JavaScript enumerates them (\<^verbatim>\<open>Object.entries\<close>, spread, \<^verbatim>\<open>JSON.stringify\<close>): the keys
  that are array indices first, in ascending numeric order, then every other key in the
  order of its creation. Own properties are all there is to an object here: what every
  object inherits from its prototype (\<^verbatim>\<open>constructor\<close>, \<^verbatim>\<open>toString\<close>,
  \<^verbatim>\<open>__proto__\<close> and the like) is not modelled, so the keys of the model are the keys
  that are not among those names.
\<close>

datatype jsval =
    JUndefined
  | JNull
  | JBool bool
  | JStr string
  | JObj "(string \<times> jsval) list"

type_synonym obj = "(string \<times> jsval) list"

text \<open>
  What the service can throw or reject with: a TypeError of the language, an
  \<^verbatim>\<open>Error\<close> with its message, the error with which a child process started by
  \<^verbatim>\<open>CliExeca.run\<close> fails (execa's error, which carries the text the process wrote to
  stderr), and any other error of a collaborator.
\<close>

datatype execa_error = ExecaError (message: string) (stderr: string)

datatype js_error =
    TypeError
  | Error string
  | ProcessError execa_error
  | SystemError string

text \<open>\<^verbatim>\<open>ToString\<close> of the language, as \<^verbatim>\<open>String.prototype.replace\<close> and
  \<^verbatim>\<open>Array.prototype.join\<close> apply it.\<close>

definition ToString :: "jsval \<Rightarrow> string" where
  "ToString v = (case v of
      JUndefined \<Rightarrow> ''undefined''
    | JNull \<Rightarrow> ''null''
    | JBool b \<Rightarrow> (if b then ''true'' else ''false'')
    | JStr s \<Rightarrow> s
    | JObj _ \<Rightarrow> ''[object Object]'')"

subsection \<open>Decimal numerals\<close>

definition is_digit :: "char \<Rightarrow> bool" where
  "is_digit c = (let n = (of_char c :: nat) in 48 \<le> n \<and> n \<le> 57)"

definition digit_val :: "char \<Rightarrow> nat" where
  "digit_val c = (of_char c :: nat) - 48"

definition nat_of_digits :: "string \<Rightarrow> nat" where
  "nat_of_digits s = foldl (\<lambda>acc c. 10 * acc + digit_val c) 0 s"

definition digit_char :: "nat \<Rightarrow> char" where
  "digit_char d = char_of (48 + d)"

fun string_of_nat :: "nat \<Rightarrow> string" where
  "string_of_nat n =
     (if n < 10 then [digit_char n] else string_of_nat (n div 10) @ [digit_char (n mod 10)])"

declare string_of_nat.simps [simp del]

text \<open>\<^verbatim>\<open>0|[1-9]\d*\<close>: a decimal numeral without a leading zero.\<close>

definition canonical_numeral :: "string \<Rightarrow> bool" where
  "canonical_numeral s = (s \<noteq> [] \<and> list_all is_digit s \<and> (s = ''0'' \<or> hd s \<noteq> CHR ''0''))"

text \<open>An array index is the canonical numeral of an integer below \<open>2^32 - 1\<close>.\<close>

definition is_array_index :: "string \<Rightarrow> bool" where
  "is_array_index k = (canonical_numeral k \<and> nat_of_digits k < 4294967295)"

subsection \<open>Objects\<close>

definition obj_keys :: "obj \<Rightarrow> string list" where
  "obj_keys ob = map fst ob"

text \<open>\<^verbatim>\<open>o[k]\<close> on an object: an absent property reads as undefined.\<close>

definition obj_get :: "obj \<Rightarrow> string \<Rightarrow> jsval" where
  "obj_get ob k = (case map_of ob k of None \<Rightarrow> JUndefined | Some v \<Rightarrow> v)"

fun insert_index :: "string \<Rightarrow> jsval \<Rightarrow> obj \<Rightarrow> obj" where
  "insert_index k v [] = [(k, v)]"
| "insert_index k v ((k', v') # es) =
     (if is_array_index k' \<and> nat_of_digits k' < nat_of_digits k
      then (k', v') # insert_index k v es
      else (k, v) # (k', v') # es)"

text \<open>
  \<^verbatim>\<open>o[k] = v\<close> and \<^verbatim>\<open>{...o, [k]: v}\<close>: an existing property keeps its place, a new
  array index goes among the array indices, any other new key goes last.
\<close>

definition obj_set :: "obj \<Rightarrow> string \<Rightarrow> jsval \<Rightarrow> obj" where
  "obj_set ob k v =
     (if k \<in> set (obj_keys ob) then map (\<lambda>(k', v'). if k' = k then (k', v) else (k', v')) ob
      else if is_array_index k then insert_index k v ob
      else ob @ [(k, v)])"

text \<open>\<^verbatim>\<open>{...a, ...b}\<close>: the properties of \<open>b\<close> are set on a copy of \<open>a\<close>, one after
  the other; \<^verbatim>\<open>{...b}\<close> is the case of an empty \<open>a\<close>.\<close>

definition obj_spread :: "obj \<Rightarrow> obj \<Rightarrow> obj" where
  "obj_spread a b = foldl (\<lambda>acc (k, v). obj_set acc k v) a b"

text \<open>
  \<^verbatim>\<open>Object.entries(x)\<close>: a TypeError on undefined and null, no entry for a boolean, the
  indexed characters of a string, the properties of an object.
\<close>

definition Object_entries :: "jsval \<Rightarrow> js_error + obj" where
  "Object_entries x = (case x of
      JUndefined \<Rightarrow> Inl TypeError
    | JNull \<Rightarrow> Inl TypeError
    | JBool _ \<Rightarrow> Inr []
    | JStr s \<Rightarrow> Inr (zip (map string_of_nat [0..<length s]) (map (\<lambda>c. JStr [c]) s))
    | JObj es \<Rightarrow> Inr es)"

section \<open>The version check of the semver package\<close>

text \<open>
  \<^verbatim>\<open>semver.valid(version)\<close> of the semver package, which the root manifest pins at
  7.3.2: it parses one full version, \<^verbatim>\<open>v?MAJOR.MINOR.PATCH(-PRERELEASE)?(+BUILD)?\<close>
  with the expression \<^verbatim>\<open>FULL\<close> of the package, and answers null for everything else:
  a value that is not a string, a string of more than 256 code units, a string that
  \<^verbatim>\<open>FULL\<close> does not match, a component above \<^verbatim>\<open>Number.MAX_SAFE_INTEGER\<close>. A range
  such as \<^verbatim>\<open>^1.0.0\<close> is the business of \<^verbatim>\<open>semver.validRange\<close>, not of this function.
  The functions of the service below take the check as a parameter \<open>valid\<close>; this
  definition instantiates it.
\<close>

definition is_ident_char :: "char \<Rightarrow> bool" where
  "is_ident_char c = (let n = (of_char c :: nat) in
     (48 \<le> n \<and> n \<le> 57) \<or> (65 \<le> n \<and> n \<le> 90) \<or> (97 \<le> n \<and> n \<le> 122) \<or> n = 45)"

text \<open>\<^verbatim>\<open>s.split(sep)\<close> for a separator of one character.\<close>

fun split_on :: "char \<Rightarrow> string \<Rightarrow> string list" where
  "split_on sep [] = [[]]"
| "split_on sep (c # cs) =
     (if c = sep then [] # split_on sep cs
      else (case split_on sep cs of
              [] \<Rightarrow> [[c]]
            | w # ws \<Rightarrow> (c # w) # ws))"

definition prerelease_identifier :: "string \<Rightarrow> bool" where
  "prerelease_identifier s =
     (canonical_numeral s \<or> (list_all is_ident_char s \<and> list_ex (\<lambda>c. \<not> is_digit c) s))"

definition build_identifier :: "string \<Rightarrow> bool" where
  "build_identifier s = (s \<noteq> [] \<and> list_all is_ident_char s)"

definition main_version :: "string \<Rightarrow> bool" where
  "main_version s = (case split_on CHR ''.'' s of
      [a, b, c] \<Rightarrow> list_all canonical_numeral [a, b, c]
        \<and> list_all (\<lambda>n. nat_of_digits n \<le> 9007199254740991) [a, b, c]
    | _ \<Rightarrow> False)"

definition build_part :: "string \<Rightarrow> bool" where
  "build_part s = (case s of
      [] \<Rightarrow> True
    | c # b \<Rightarrow> c = CHR ''+'' \<and> list_all build_identifier (split_on CHR ''.'' b))"

definition version_tail :: "string \<Rightarrow> bool" where
  "version_tail s = (case s of
      [] \<Rightarrow> True
    | c # r \<Rightarrow>
        if c = CHR ''-''
        then list_all prerelease_identifier (split_on CHR ''.'' (takeWhile (\<lambda>x. x \<noteq> CHR ''+'') r))
          \<and> build_part (dropWhile (\<lambda>x. x \<noteq> CHR ''+'') r)
        else build_part s)"

definition semver_valid :: "string \<Rightarrow> bool" where
  "semver_valid s =
     (let t = (case s of c # r \<Rightarrow> if c = CHR ''v'' then r else s | [] \<Rightarrow> s);
          sep = (\<lambda>x. x \<noteq> CHR ''-'' \<and> x \<noteq> CHR ''+'')
      in length s \<le> 256 \<and> main_version (takeWhile sep t) \<and> version_tail (dropWhile sep t))"

text \<open>A caret range, one of the forms of a range in the grammar of semver: a caret before
  a version.\<close>

definition caret_range :: "string \<Rightarrow> bool" where
  "caret_range s = (case s of [] \<Rightarrow> False | c # v \<Rightarrow> c = CHR ''^'' \<and> semver_valid v)"

text \<open>The check on a value: only a string can be a version.\<close>

definition valid_version :: "(string \<Rightarrow> bool) \<Rightarrow> jsval \<Rightarrow> bool" where
  "valid_version valid v = (case v of JStr s \<Rightarrow> valid s | _ \<Rightarrow> False)"

section \<open>The version partitioner\<close>

text \<open>\<^verbatim>\<open>info.join("@")\<close> on the pair of a key and a value: undefined and null join as the
  empty string.\<close>

definition join_at :: "string \<Rightarrow> jsval \<Rightarrow> string" where
  "join_at k v = k @ ''@'' @ (case v of JUndefined \<Rightarrow> [] | JNull \<Rightarrow> [] | _ \<Rightarrow> ToString v)"

definition toString :: "string \<times> jsval \<Rightarrow> string" where
  "toString info = (if snd info = JStr ''latest'' then fst info else join_at (fst info) (snd info))"

definition invalid_entries :: "(string \<Rightarrow> bool) \<Rightarrow> obj \<Rightarrow> obj" where
  "invalid_entries valid es = filter (\<lambda>(k, version). \<not> valid_version valid version) es"

definition mapPackagesWithInvalidVersion :: "(string \<Rightarrow> bool) \<Rightarrow> jsval \<Rightarrow> js_error + string list" where
  "mapPackagesWithInvalidVersion valid deps = (case Object_entries deps of
      Inl e \<Rightarrow> Inl e
    | Inr es \<Rightarrow> Inr (map toString (invalid_entries valid es)))"

text \<open>
  The object that \<^verbatim>\<open>sortKeys\<close> builds from the entries of its argument. The comparator
  orders the entries by key, code unit by code unit; the keys of one object are distinct,
  so it never meets two equal keys. Each step of \<^verbatim>\<open>reduce\<close> is the object
  \<^verbatim>\<open>{...obj, [key]: value}\<close>.
\<close>

definition sorted_object :: "obj \<Rightarrow> obj" where
  "sorted_object es =
     foldl (\<lambda>ob (key, v). obj_set (obj_spread [] ob) key v) [] (sort_key fst es)"

definition sortKeys :: "jsval \<Rightarrow> js_error + obj" where
  "sortKeys ob = (case Object_entries ob of
      Inl e \<Rightarrow> Inl e
    | Inr es \<Rightarrow> Inr (sorted_object es))"

text \<open>
  The order of the keys of a sorted object: an array index stands before every other key,
  two array indices stand in numeric order, two other keys in the order of their code
  units.
\<close>

definition key_before :: "string \<Rightarrow> string \<Rightarrow> bool" where
  "key_before a b =
     (if is_array_index a then \<not> is_array_index b \<or> nat_of_digits a \<le> nat_of_digits b
      else \<not> is_array_index b \<and> a \<le> b)"

text \<open>The object that \<^verbatim>\<open>mapPackagesWithValidVersion\<close> builds from the entries of its
  argument: an entry with a valid version adds \<^verbatim>\<open>{...deps, [key]: version}\<close>, any other
  entry keeps the accumulator.\<close>

definition valid_object :: "(string \<Rightarrow> bool) \<Rightarrow> obj \<Rightarrow> obj" where
  "valid_object valid es =
     foldl (\<lambda>deps (key, version).
        if valid_version valid version then obj_set (obj_spread [] deps) key version else deps) [] es"

definition mapPackagesWithValidVersion :: "(string \<Rightarrow> bool) \<Rightarrow> jsval \<Rightarrow> js_error + obj" where
  "mapPackagesWithValidVersion valid deps = (case Object_entries deps of
      Inl e \<Rightarrow> Inl e
    | Inr es \<Rightarrow> Inr (valid_object valid es))"

section \<open>Version templates\<close>

text \<open>
  The replacers of \<^verbatim>\<open>addDevDependencies\<close> and \<^verbatim>\<open>addDependencies\<close> return
  \<^verbatim>\<open>getValue(key, scope)\<close>, a function that the module imports from the package
  \<^verbatim>\<open>@tsed/core\<close>. The package is not part of this repository, so the lookup is a
  parameter \<open>getValue\<close> of everything that calls it: any function from a key and a
  scope to the value it returns or the error it throws.

  \<^verbatim>\<open>ctx.tsedVersion\<close>, the one property that the service itself reads of a scope:
  reading a property of undefined or null is a TypeError, an object answers with its
  property, and a string or a boolean has no property of that name.
\<close>

definition ctx_tsedVersion :: "jsval \<Rightarrow> js_error + jsval" where
  "ctx_tsedVersion ctx = (case ctx of
      JUndefined \<Rightarrow> Inl TypeError
    | JNull \<Rightarrow> Inl TypeError
    | JObj es \<Rightarrow> Inr (obj_get es ''tsedVersion'')
    | _ \<Rightarrow> Inr JUndefined)"

text \<open>
  \<^verbatim>\<open>s.replace(pattern, replacement)\<close> with a string pattern: the first occurrence only,
  and the replacement text, \<^verbatim>\<open>ToString\<close> of the second argument, with its dollar
  patterns expanded (a pattern without capture groups knows \<^verbatim>\<open>$$\<close>, \<^verbatim>\<open>$&\<close>,
  \<^verbatim>\<open>$`\<close> and \<^verbatim>\<open>$'\<close>).
\<close>

fun split_first :: "string \<Rightarrow> string \<Rightarrow> (string \<times> string) option" where
  "split_first pat [] = (if pat = [] then Some ([], []) else None)"
| "split_first pat (c # cs) =
     (if prefix pat (c # cs) then Some ([], drop (length pat) (c # cs))
      else (case split_first pat cs of
              None \<Rightarrow> None
            | Some (before, after) \<Rightarrow> Some (c # before, after)))"

fun expand_dollar :: "string \<Rightarrow> string \<Rightarrow> string \<Rightarrow> string \<Rightarrow> string" where
  "expand_dollar matched before after (c # d # r) =
     (if c = CHR ''$'' \<and> d = CHR ''$'' then CHR ''$'' # expand_dollar matched before after r
      else if c = CHR ''$'' \<and> d = CHR ''&'' then matched @ expand_dollar matched before after r
      else if c = CHR ''$'' \<and> d = CHR 0x60 then before @ expand_dollar matched before after r
      else if c = CHR ''$'' \<and> d = CHR 0x27 then after @ expand_dollar matched before after r
      else c # expand_dollar matched before after (d # r))"
| "expand_dollar matched before after r = r"

definition replace_string :: "string \<Rightarrow> string \<Rightarrow> jsval \<Rightarrow> string" where
  "replace_string s pat replacement = (case split_first pat s of
      None \<Rightarrow> s
    | Some (before, after) \<Rightarrow> before @ expand_dollar pat before after (ToString replacement) @ after)"

text \<open>
  \<^verbatim>\<open>s.replace(/{{([\w.]+)}}/gi, replacer)\<close>: from left to right, every
  \<^verbatim>\<open>{{key}}\<close> whose key is a non-empty run of word characters and dots is replaced by
  \<^verbatim>\<open>ToString\<close> of what the replacer returns for the key; the scan goes on behind the
  match. A closing brace is no key character, so the longest run is the only candidate.
\<close>

definition is_key_char :: "char \<Rightarrow> bool" where
  "is_key_char c = (let n = (of_char c :: nat) in
     (48 \<le> n \<and> n \<le> 57) \<or> (65 \<le> n \<and> n \<le> 90) \<or> (97 \<le> n \<and> n \<le> 122) \<or> n = 95 \<or> n = 46)"

text \<open>The key and the rest behind the match, when a match starts at the head of the string.\<close>

definition match_token :: "string \<Rightarrow> (string \<times> string) option" where
  "match_token s =
     (if prefix ''{{'' s
      then (let r = drop 2 s; key = takeWhile is_key_char r; rest = dropWhile is_key_char r
            in if key \<noteq> [] \<and> prefix ''}}'' rest then Some (key, drop 2 rest) else None)
      else None)"

function replace_tokens :: "(string \<Rightarrow> js_error + jsval) \<Rightarrow> string \<Rightarrow> js_error + string" where
  "replace_tokens replacer [] = Inr []"
| "replace_tokens replacer (c # cs) = (case match_token (c # cs) of
      Some (key, rest) \<Rightarrow> (case replacer key of
          Inl e \<Rightarrow> Inl e
        | Inr v \<Rightarrow> (case replace_tokens replacer rest of
              Inl e \<Rightarrow> Inl e
            | Inr t \<Rightarrow> Inr (ToString v @ t)))
    | None \<Rightarrow> (case replace_tokens replacer cs of
          Inl e \<Rightarrow> Inl e
        | Inr t \<Rightarrow> Inr (c # t)))"
  by pat_completeness auto

termination replace_tokens
proof (relation "measure (\<lambda>(replacer, s). length s)")
  show "wf (measure (\<lambda>(replacer :: string \<Rightarrow> js_error + jsval, s :: string). length s))"
    by simp
next
  fix replacer :: "string \<Rightarrow> js_error + jsval" and c :: char and cs x y :: string and p
  assume "match_token (c # cs) = Some p" and "(x, y) = p"
  then have m: "match_token (c # cs) = Some (x, y)"
    by simp
  have "length (dropWhile is_key_char (drop 2 (c # cs))) \<le> length (drop 2 (c # cs))"
    by (rule length_dropWhile_le)
  with m have "length y < length (c # cs)"
    by (auto simp: match_token_def Let_def split: if_splits)
  then show "((replacer, y), (replacer, c # cs)) \<in> measure (\<lambda>(replacer, s). length s)"
    by simp
next
  fix replacer :: "string \<Rightarrow> js_error + jsval" and c :: char and cs :: string
  show "((replacer, cs), (replacer, c # cs)) \<in> measure (\<lambda>(replacer, s). length s)"
    by simp
qed

section \<open>JSON text\<close>

text \<open>
  \<^verbatim>\<open>JSON.stringify(json, null, 2)\<close>: a property whose value is undefined is left out, an
  object without a property to print is \<^verbatim>\<open>{}\<close>, every other object prints one property
  per line, two more spaces in at each level.
\<close>

definition hex_digit :: "nat \<Rightarrow> char" where
  "hex_digit n = (if n < 10 then char_of (48 + n) else char_of (87 + n))"

definition quote_char :: "char \<Rightarrow> string" where
  "quote_char c = (let n = (of_char c :: nat) in
     if n = 34 then [CHR 0x5C, CHR 0x22]
     else if n = 92 then [CHR 0x5C, CHR 0x5C]
     else if n = 8 then [CHR 0x5C, CHR ''b'']
     else if n = 9 then [CHR 0x5C, CHR ''t'']
     else if n = 10 then [CHR 0x5C, CHR ''n'']
     else if n = 12 then [CHR 0x5C, CHR ''f'']
     else if n = 13 then [CHR 0x5C, CHR ''r'']
     else if n < 32 then [CHR 0x5C, CHR ''u'', CHR ''0'', CHR ''0'', hex_digit (n div 16), hex_digit (n mod 16)]
     else [c])"

definition quote :: "string \<Rightarrow> string" where
  "quote s = [CHR 0x22] @ concat (map quote_char s) @ [CHR 0x22]"

fun indent :: "nat \<Rightarrow> string" where
  "indent 0 = []"
| "indent (Suc n) = ''  '' @ indent n"

fun join_with :: "string \<Rightarrow> string list \<Rightarrow> string" where
  "join_with sep [] = []"
| "join_with sep [x] = x"
| "join_with sep (x # y # ys) = x @ sep @ join_with sep (y # ys)"

fun stringify_value :: "nat \<Rightarrow> jsval \<Rightarrow> string option"
  and stringify_properties :: "nat \<Rightarrow> (string \<times> jsval) list \<Rightarrow> string list" where
  "stringify_value n JUndefined = None"
| "stringify_value n JNull = Some ''null''"
| "stringify_value n (JBool b) = Some (if b then ''true'' else ''false'')"
| "stringify_value n (JStr s) = Some (quote s)"
| "stringify_value n (JObj es) = Some (case stringify_properties (Suc n) es of
      [] \<Rightarrow> ''{}''
    | p # ps \<Rightarrow> ''{'' @ [CHR 0x0A] @ indent (Suc n)
        @ join_with ('','' @ [CHR 0x0A] @ indent (Suc n)) (p # ps)
        @ [CHR 0x0A] @ indent n @ ''}'')"
| "stringify_properties n [] = []"
| "stringify_properties n ((k, v) # es) = (case stringify_value n v of
      None \<Rightarrow> stringify_properties n es
    | Some t \<Rightarrow> (quote k @ '': '' @ t) # stringify_properties n es)"

definition JSON_stringify :: "obj \<Rightarrow> string" where
  "JSON_stringify json = (case stringify_value 0 (JObj json) of None \<Rightarrow> [] | Some t \<Rightarrow> t)"

section \<open>The manifest service\<close>

text \<open>
  The collaborators of the service, none of which is part of the service itself: the
  version check of semver, \<^verbatim>\<open>join\<close> and \<^verbatim>\<open>dirname\<close> of the path module,
  \<^verbatim>\<open>process.argv\<close>, the file system (\<^verbatim>\<open>Fs.existsSync\<close>, \<^verbatim>\<open>readPkgUp.sync\<close>,
  \<^verbatim>\<open>CliFs.writeFileSync\<close>) and the process runner (\<^verbatim>\<open>CliExeca.runSync\<close> and
  \<^verbatim>\<open>CliExeca.run\<close>). The world outside, of type \<open>'w\<close>, is threaded through the calls
  that can change it; a call that throws or rejects returns its error on the left.
\<close>

record 'w env =
  semverValid :: "string \<Rightarrow> bool"
  pathJoin :: "string \<Rightarrow> string \<Rightarrow> string"
  pathDirname :: "string \<Rightarrow> string"
  argv :: "string list"
  existsSync :: "string \<Rightarrow> 'w \<Rightarrow> bool"
  readPkgUpSync :: "string option \<Rightarrow> 'w \<Rightarrow> js_error + (string \<times> obj) option"
  writeFileSync :: "string \<Rightarrow> string \<Rightarrow> 'w \<Rightarrow> (js_error + unit) \<times> 'w"
  runSync :: "string \<Rightarrow> string list \<Rightarrow> 'w \<Rightarrow> (js_error + unit) \<times> 'w"
  run :: "string \<Rightarrow> string list \<Rightarrow> string \<Rightarrow> 'w \<Rightarrow> (execa_error + unit) \<times> 'w"

text \<open>What the service reads and sets of the injected configuration:
  \<^verbatim>\<open>configuration.name\<close>, \<^verbatim>\<open>configuration.project?.rootDir\<close> and the key
  \<^verbatim>\<open>project.root\<close>.\<close>

record configuration =
  name :: jsval
  rootDir :: "string option"
  root :: "string option"

record project_package_json =
  rewrite :: bool
  reinstall :: bool
  raw :: obj
  configuration :: configuration

definition getEmptyPackageJson :: "configuration \<Rightarrow> obj" where
  "getEmptyPackageJson conf =
     [(''name'', name conf), (''version'', JStr ''1.0.0''), (''description'', JStr []),
      (''scripts'', JObj []), (''dependencies'', JObj []), (''devDependencies'', JObj [])]"

text \<open>\<^verbatim>\<open>String(configuration.project?.rootDir)\<close>\<close>

definition rootDir_string :: "configuration \<Rightarrow> string" where
  "rootDir_string conf = (case rootDir conf of None \<Rightarrow> ''undefined'' | Some d \<Rightarrow> d)"

definition useReadPkgUp :: "'w env \<Rightarrow> configuration \<Rightarrow> 'w \<Rightarrow> bool" where
  "useReadPkgUp env conf w =
     (\<not> (''init'' \<in> set (argv env)
         \<and> \<not> existsSync env (pathJoin env (rootDir_string conf) ''package.json'') w))"

definition getPackageJson :: "'w env \<Rightarrow> configuration \<Rightarrow> 'w \<Rightarrow> js_error + configuration \<times> obj" where
  "getPackageJson env conf w =
     (if useReadPkgUp env conf w
      then (case readPkgUpSync env (rootDir conf) w of
              Inl e \<Rightarrow> Inl e
            | Inr None \<Rightarrow> Inr (conf, getEmptyPackageJson conf)
            | Inr (Some (p, packageJson)) \<Rightarrow>
                if p \<noteq> []
                then (let conf' = conf\<lparr>root := Some (pathDirname env p)\<rparr>
                      in Inr (conf', obj_spread (getEmptyPackageJson conf') packageJson))
                else Inr (conf, getEmptyPackageJson conf))
      else Inr (conf, getEmptyPackageJson conf))"

definition dir :: "project_package_json \<Rightarrow> string" where
  "dir st = rootDir_string (configuration st)"

definition path :: "'w env \<Rightarrow> project_package_json \<Rightarrow> string" where
  "path env st = pathJoin env (dir st) ''package.json''"

definition scripts :: "project_package_json \<Rightarrow> jsval" where
  "scripts st = obj_get (raw st) ''scripts''"

definition dependencies :: "project_package_json \<Rightarrow> jsval" where
  "dependencies st = obj_get (raw st) ''dependencies''"

definition devDependencies :: "project_package_json \<Rightarrow> jsval" where
  "devDependencies st = obj_get (raw st) ''devDependencies''"

definition read :: "'w env \<Rightarrow> project_package_json \<Rightarrow> 'w \<Rightarrow> js_error + project_package_json" where
  "read env st w = (case getPackageJson env (configuration st) w of
      Inl e \<Rightarrow> Inl e
    | Inr (conf, r) \<Rightarrow> Inr (st\<lparr>raw := r, configuration := conf\<rparr>))"

subsection \<open>Mutators\<close>

text \<open>
  \<^verbatim>\<open>target[k] = v\<close> where the target is the value of a property of \<^verbatim>\<open>this.raw\<close>: the
  property is set on an object; on anything else the assignment throws a TypeError (the
  module is strict code) and nothing changes.
\<close>

definition assign_in :: "string \<Rightarrow> string \<Rightarrow> jsval \<Rightarrow> obj \<Rightarrow> js_error + obj" where
  "assign_in field k v r = (case obj_get r field of
      JObj target \<Rightarrow> Inr (obj_set r field (JObj (obj_set target k v)))
    | _ \<Rightarrow> Inl TypeError)"

definition addDevDependency :: "string \<Rightarrow> jsval \<Rightarrow> project_package_json \<Rightarrow> js_error + project_package_json" where
  "addDevDependency pkg version st = (case assign_in ''devDependencies'' pkg version (raw st) of
      Inl e \<Rightarrow> Inl e
    | Inr r \<Rightarrow> Inr (st\<lparr>raw := r, reinstall := True, rewrite := True\<rparr>))"

definition addDependency :: "string \<Rightarrow> jsval \<Rightarrow> project_package_json \<Rightarrow> js_error + project_package_json" where
  "addDependency pkg version st = (case assign_in ''dependencies'' pkg version (raw st) of
      Inl e \<Rightarrow> Inl e
    | Inr r \<Rightarrow> Inr (st\<lparr>raw := r, reinstall := True, rewrite := True\<rparr>))"

definition addScript :: "string \<Rightarrow> jsval \<Rightarrow> project_package_json \<Rightarrow> js_error + project_package_json" where
  "addScript task cmd st = (case assign_in ''scripts'' task cmd (raw st) of
      Inl e \<Rightarrow> Inl e
    | Inr r \<Rightarrow> Inr (st\<lparr>raw := r, rewrite := True\<rparr>))"

text \<open>\<^verbatim>\<open>version || ""\<close> on a version that is a string or undefined.\<close>

definition version_or_empty :: "string option \<Rightarrow> string" where
  "version_or_empty version = (case version of None \<Rightarrow> [] | Some s \<Rightarrow> s)"

text \<open>The default of the second parameter: \<^verbatim>\<open>scope: any = {}\<close>.\<close>

definition default_scope :: "jsval \<Rightarrow> jsval" where
  "default_scope scope = (if scope = JUndefined then JObj [] else scope)"

text \<open>The version that \<^verbatim>\<open>addDevDependencies\<close> hands to \<^verbatim>\<open>addDevDependency\<close>.\<close>

definition devDependency_version ::
  "(string \<Rightarrow> jsval \<Rightarrow> js_error + jsval) \<Rightarrow> jsval \<Rightarrow> string option \<Rightarrow> js_error + string" where
  "devDependency_version getValue scope version =
     replace_tokens (\<lambda>key. getValue key scope) (version_or_empty version)"

text \<open>The version that \<^verbatim>\<open>addDependencies\<close> hands to \<^verbatim>\<open>addDependency\<close>: the
  argument \<^verbatim>\<open>ctx.tsedVersion\<close> is read first.\<close>

definition dependency_version ::
  "(string \<Rightarrow> jsval \<Rightarrow> js_error + jsval) \<Rightarrow> jsval \<Rightarrow> string option \<Rightarrow> js_error + string" where
  "dependency_version getValue ctx version = (case ctx_tsedVersion ctx of
      Inl e \<Rightarrow> Inl e
    | Inr tsedVersion \<Rightarrow>
        replace_tokens (\<lambda>key. getValue key ctx)
          (replace_string (version_or_empty version) ''{{tsedVersion}}'' tsedVersion))"

text \<open>
  The loops over \<^verbatim>\<open>Object.entries(modules)\<close>. An entry that throws ends the loop; the
  entries before it have been added, so the error comes with the state reached.
\<close>

fun addDevDependencies_entries ::
  "(string \<Rightarrow> jsval \<Rightarrow> js_error + jsval) \<Rightarrow> (string \<times> string option) list \<Rightarrow> jsval
     \<Rightarrow> project_package_json \<Rightarrow> js_error \<times> project_package_json + project_package_json" where
  "addDevDependencies_entries getValue [] scope st = Inr st"
| "addDevDependencies_entries getValue ((pkg, version) # modules) scope st =
     (case devDependency_version getValue scope version of
        Inl e \<Rightarrow> Inl (e, st)
      | Inr v \<Rightarrow> (case addDevDependency pkg (JStr v) st of
            Inl e \<Rightarrow> Inl (e, st)
          | Inr st' \<Rightarrow> addDevDependencies_entries getValue modules scope st'))"

definition addDevDependencies ::
  "(string \<Rightarrow> jsval \<Rightarrow> js_error + jsval) \<Rightarrow> (string \<times> string option) list \<Rightarrow> jsval
     \<Rightarrow> project_package_json \<Rightarrow> js_error \<times> project_package_json + project_package_json" where
  "addDevDependencies getValue modules scope st =
     addDevDependencies_entries getValue modules (default_scope scope) st"

fun addDependencies_entries ::
  "(string \<Rightarrow> jsval \<Rightarrow> js_error + jsval) \<Rightarrow> (string \<times> string option) list \<Rightarrow> jsval
     \<Rightarrow> project_package_json \<Rightarrow> js_error \<times> project_package_json + project_package_json" where
  "addDependencies_entries getValue [] ctx st = Inr st"
| "addDependencies_entries getValue ((pkg, version) # modules) ctx st =
     (case dependency_version getValue ctx version of
        Inl e \<Rightarrow> Inl (e, st)
      | Inr v \<Rightarrow> (case addDependency pkg (JStr v) st of
            Inl e \<Rightarrow> Inl (e, st)
          | Inr st' \<Rightarrow> addDependencies_entries getValue modules ctx st'))"

definition addDependencies ::
  "(string \<Rightarrow> jsval \<Rightarrow> js_error + jsval) \<Rightarrow> (string \<times> string option) list \<Rightarrow> jsval
     \<Rightarrow> project_package_json \<Rightarrow> js_error \<times> project_package_json + project_package_json" where
  "addDependencies getValue modules ctx st =
     addDependencies_entries getValue modules (default_scope ctx) st"

fun addScripts :: "(string \<times> jsval) list \<Rightarrow> project_package_json
     \<Rightarrow> js_error \<times> project_package_json + project_package_json" where
  "addScripts [] st = Inr st"
| "addScripts ((task, cmd) # rest) st = (case addScript task cmd st of
      Inl e \<Rightarrow> Inl (e, st)
    | Inr st' \<Rightarrow> addScripts rest st')"

text \<open>The setter of \<^verbatim>\<open>name\<close>, and \<^verbatim>\<open>add\<close>, \<^verbatim>\<open>set\<close> and \<^verbatim>\<open>get\<close>.\<close>

definition set_name :: "jsval \<Rightarrow> project_package_json \<Rightarrow> project_package_json" where
  "set_name n st = st\<lparr>raw := obj_set (raw st) ''name'' n, rewrite := True\<rparr>"

definition add_field :: "string \<Rightarrow> jsval \<Rightarrow> project_package_json \<Rightarrow> project_package_json" where
  "add_field key data st = st\<lparr>raw := obj_set (raw st) key data, rewrite := True\<rparr>"

definition set_field :: "string \<Rightarrow> jsval \<Rightarrow> project_package_json \<Rightarrow> project_package_json" where
  "set_field key v st =
     (let st' = st\<lparr>raw := obj_set (raw st) key v, rewrite := True\<rparr>
      in if key \<in> set [''dependencies'', ''devDependencies'', ''peerDependencies'']
         then st'\<lparr>reinstall := True\<rparr> else st')"

definition get_field :: "string \<Rightarrow> project_package_json \<Rightarrow> jsval" where
  "get_field key st = obj_get (raw st) key"

subsection \<open>Writing the manifest\<close>

text \<open>The first three statements of \<^verbatim>\<open>write()\<close>: the two maps are replaced by their
  sorted copies, then the flag is cleared. A map that is undefined or null stops the
  method at its statement.\<close>

definition sort_dependencies :: "project_package_json \<Rightarrow> js_error \<times> project_package_json + project_package_json" where
  "sort_dependencies st = (case sortKeys (obj_get (raw st) ''devDependencies'') of
      Inl e \<Rightarrow> Inl (e, st)
    | Inr dd \<Rightarrow>
        (let st1 = st\<lparr>raw := obj_set (raw st) ''devDependencies'' (JObj dd)\<rparr>
         in case sortKeys (obj_get (raw st1) ''dependencies'') of
              Inl e \<Rightarrow> Inl (e, st1)
            | Inr d \<Rightarrow> Inr (st1\<lparr>raw := obj_set (raw st1) ''dependencies'' (JObj d), rewrite := False\<rparr>)))"

text \<open>The object \<^verbatim>\<open>json\<close> that \<^verbatim>\<open>write()\<close> serialises.\<close>

definition write_json :: "(string \<Rightarrow> bool) \<Rightarrow> obj \<Rightarrow> js_error + obj" where
  "write_json valid r = (case mapPackagesWithValidVersion valid (obj_get r ''dependencies'') of
      Inl e \<Rightarrow> Inl e
    | Inr d \<Rightarrow> (case mapPackagesWithValidVersion valid (obj_get r ''devDependencies'') of
          Inl e \<Rightarrow> Inl e
        | Inr dd \<Rightarrow> Inr (obj_set (obj_set (obj_spread [] r)
              ''dependencies'' (JObj (obj_spread [] d)))
              ''devDependencies'' (JObj (obj_spread [] dd)))))"

text \<open>\<^verbatim>\<open>write()\<close>: the result of the call, the state it leaves and the world it leaves.\<close>

definition write_pkg :: "'w env \<Rightarrow> project_package_json \<Rightarrow> 'w
     \<Rightarrow> (js_error + unit) \<times> project_package_json \<times> 'w" where
  "write_pkg env st w = (case sort_dependencies st of
      Inl (e, st') \<Rightarrow> (Inl e, st', w)
    | Inr st' \<Rightarrow> (case write_json (semverValid env) (raw st') of
          Inl e \<Rightarrow> (Inl e, st', w)
        | Inr json \<Rightarrow>
            (case writeFileSync env (path env st') (JSON_stringify json) w of
               (res, w') \<Rightarrow> (res, st', w'))))"

subsection \<open>Installing\<close>

datatype package_manager = Npm | Yarn

record install_options =
  packageManager :: "package_manager option"
  verbose :: bool

text \<open>
  The operation of a task descriptor, one constructor for each body that the service
  gives to a property \<^verbatim>\<open>task\<close>: \<^verbatim>\<open>() => this.write()\<close>, a call of
  \<^verbatim>\<open>this.cliExeca.run(cmd, args, {cwd})\<close>, the same call piped through the
  \<^verbatim>\<open>errorPipe()\<close> of \<^verbatim>\<open>installWithYarn\<close>, and the body of the task "Clean".
\<close>

datatype task_action =
    Call_write
  | Call_run string "string list" string
  | Call_run_errorPipe string "string list" string
  | Call_clean

text \<open>A task descriptor. The predicates \<^verbatim>\<open>enabled\<close> and \<^verbatim>\<open>skip\<close> read the service
  when they are called; a descriptor without one of them has the constant answer.\<close>

record task_descriptor =
  title :: string
  enabled :: "project_package_json \<Rightarrow> bool"
  skip :: "project_package_json \<Rightarrow> bool"
  task :: task_action

text \<open>\<^verbatim>\<open>xs.filter(Boolean)\<close> on a list of strings: the empty string is dropped. An element
  \<^verbatim>\<open>verbose && "--verbose"\<close> that is not the flag is falsy and dropped as well, so
  \<open>verbose_flag\<close> contributes it only when \<^verbatim>\<open>verbose\<close> is truthy.\<close>

definition filter_Boolean :: "string list \<Rightarrow> string list" where
  "filter_Boolean xs = filter (\<lambda>s. s \<noteq> []) xs"

definition verbose_flag :: "bool \<Rightarrow> string list" where
  "verbose_flag v = (if v then [''--verbose''] else [])"

text \<open>The selector of \<^verbatim>\<open>catchError\<close> in \<^verbatim>\<open>installWithYarn\<close>: the error the piped
  observable fails with, given the error of the child process.\<close>

definition errorPipe :: "execa_error \<Rightarrow> js_error" where
  "errorPipe error =
     (if prefix ''error Your lockfile needs to be updated'' (stderr error)
      then Error ''yarn.lock file is outdated. Run yarn, commit the updated lockfile and try again.''
      else ProcessError error)"

definition installWithYarn :: "(string \<Rightarrow> bool) \<Rightarrow> project_package_json \<Rightarrow> install_options
     \<Rightarrow> js_error + task_descriptor list" where
  "installWithYarn valid st options =
     (case mapPackagesWithInvalidVersion valid (devDependencies st) of
        Inl e \<Rightarrow> Inl e
      | Inr devDeps \<Rightarrow> (case mapPackagesWithInvalidVersion valid (dependencies st) of
            Inl e \<Rightarrow> Inl e
          | Inr deps \<Rightarrow> Inr
              [\<lparr>title = ''Installing dependencies using Yarn'',
                enabled = (\<lambda>s. True),
                skip = (\<lambda>s. \<not> reinstall s),
                task = Call_run_errorPipe ''yarn''
                  (filter_Boolean ([''install'', ''--production=false''] @ verbose_flag (verbose options)))
                  (dir st)\<rparr>,
               \<lparr>title = ''Add dependencies using Yarn'',
                enabled = (\<lambda>s. True),
                skip = (\<lambda>s. deps = []),
                task = Call_run_errorPipe ''yarn''
                  (filter_Boolean ([''add''] @ verbose_flag (verbose options) @ deps))
                  (dir st)\<rparr>,
               \<lparr>title = ''Add devDependencies using Yarn'',
                enabled = (\<lambda>s. True),
                skip = (\<lambda>s. devDeps = []),
                task = Call_run_errorPipe ''yarn''
                  (filter_Boolean ([''add'', ''-D''] @ verbose_flag (verbose options) @ devDeps))
                  (dir st)\<rparr>]))"

definition installWithNpm :: "(string \<Rightarrow> bool) \<Rightarrow> project_package_json \<Rightarrow> install_options
     \<Rightarrow> js_error + task_descriptor list" where
  "installWithNpm valid st options =
     (case mapPackagesWithInvalidVersion valid (devDependencies st) of
        Inl e \<Rightarrow> Inl e
      | Inr devDeps \<Rightarrow> (case mapPackagesWithInvalidVersion valid (dependencies st) of
            Inl e \<Rightarrow> Inl e
          | Inr deps \<Rightarrow> Inr
              [\<lparr>title = ''Installing dependencies using npm'',
                enabled = (\<lambda>s. True),
                skip = (\<lambda>s. \<not> reinstall s),
                task = Call_run ''npm''
                  (filter_Boolean ([''install'', ''--no-production''] @ verbose_flag (verbose options)))
                  (dir st)\<rparr>,
               \<lparr>title = ''Add dependencies using npm'',
                enabled = (\<lambda>s. True),
                skip = (\<lambda>s. deps = []),
                task = Call_run ''npm''
                  (filter_Boolean ([''install'', ''--save''] @ verbose_flag (verbose options) @ deps))
                  (dir st)\<rparr>,
               \<lparr>title = ''Add devDependencies using npm'',
                enabled = (\<lambda>s. True),
                skip = (\<lambda>s. devDeps = []),
                task = Call_run ''npm''
                  (filter_Boolean ([''install'', ''--save-dev''] @ verbose_flag (verbose options) @ devDeps))
                  (dir st)\<rparr>]))"

text \<open>\<^verbatim>\<open>hasYarn()\<close>: whatever the probe throws is caught.\<close>

definition hasYarn :: "'w env \<Rightarrow> 'w \<Rightarrow> bool \<times> 'w" where
  "hasYarn env w = (case runSync env ''yarn'' [''--version''] w of
      (Inl e, w') \<Rightarrow> (False, w')
    | (Inr u, w') \<Rightarrow> (True, w'))"

text \<open>The first two statements of \<^verbatim>\<open>install\<close>: the package manager that the options
  name afterwards. The probe runs only when yarn is asked for.\<close>

definition select_packageManager :: "'w env \<Rightarrow> install_options \<Rightarrow> 'w \<Rightarrow> package_manager \<times> 'w" where
  "select_packageManager env options w =
     (let requested = (case packageManager options of None \<Rightarrow> Yarn | Some pm \<Rightarrow> pm)
      in if requested = Yarn
         then (case hasYarn env w of (found, w') \<Rightarrow> (if \<not> found then Npm else Yarn, w'))
         else (requested, w))"

text \<open>\<^verbatim>\<open>install(options)\<close>: the list of task descriptors it passes to
  \<^verbatim>\<open>createTasks\<close>, with \<^verbatim>\<open>concurrent: false\<close>.\<close>

definition install :: "'w env \<Rightarrow> install_options \<Rightarrow> project_package_json \<Rightarrow> 'w
     \<Rightarrow> (js_error + task_descriptor list) \<times> 'w" where
  "install env options st w = (case select_packageManager env options w of
      (pm, w') \<Rightarrow>
        (case (if pm = Yarn then installWithYarn (semverValid env) st options
               else installWithNpm (semverValid env) st options) of
           Inl e \<Rightarrow> (Inl e, w')
         | Inr tasks \<Rightarrow> (Inr
             ([\<lparr>title = ''Write package.json'',
                enabled = (\<lambda>s. rewrite s),
                skip = (\<lambda>s. False),
                task = Call_write\<rparr>]
              @ tasks
              @ [\<lparr>title = ''Clean'',
                  enabled = (\<lambda>s. True),
                  skip = (\<lambda>s. False),
                  task = Call_clean\<rparr>]), w')))"

text \<open>What the operation of a task does when the runner calls it.\<close>

definition run_action :: "'w env \<Rightarrow> task_action \<Rightarrow> project_package_json \<Rightarrow> 'w
     \<Rightarrow> (js_error + unit) \<times> project_package_json \<times> 'w" where
  "run_action env a st w = (case a of
      Call_write \<Rightarrow> write_pkg env st w
    | Call_run cmd args cwd \<Rightarrow> (case run env cmd args cwd w of
          (Inl error, w') \<Rightarrow> (Inl (ProcessError error), st, w')
        | (Inr u, w') \<Rightarrow> (Inr (), st, w'))
    | Call_run_errorPipe cmd args cwd \<Rightarrow> (case run env cmd args cwd w of
          (Inl error, w') \<Rightarrow> (Inl (errorPipe error), st, w')
        | (Inr u, w') \<Rightarrow> (Inr (), st, w'))
    | Call_clean \<Rightarrow>
        (let st' = st\<lparr>reinstall := False, rewrite := False\<rparr>
         in case read env st' w of
              Inl e \<Rightarrow> (Inl e, st', w)
            | Inr st'' \<Rightarrow> (Inr (), st'', w)))"

text \<open>
  Modelled from the spec: the runner behind \<^verbatim>\<open>createTasks\<close> (the module
  \<^verbatim>\<open>utils/createTasksRunner\<close> is not among the sources). With \<^verbatim>\<open>concurrent: false\<close>
  it runs the tasks in the declared order; a task whose \<^verbatim>\<open>enabled\<close> is false is left
  out, a task whose \<^verbatim>\<open>skip\<close> holds when its turn comes is skipped, and the first
  failure of a task is the failure of the run and halts the tasks behind it.
\<close>

fun run_tasks :: "'w env \<Rightarrow> task_descriptor list \<Rightarrow> project_package_json \<Rightarrow> 'w
     \<Rightarrow> (js_error + unit) \<times> project_package_json \<times> 'w" where
  "run_tasks env [] st w = (Inr (), st, w)"
| "run_tasks env (t # ts) st w =
     (if \<not> enabled t st then run_tasks env ts st w
      else if skip t st then run_tasks env ts st w
      else (case run_action env (task t) st w of
              (Inl e, st', w') \<Rightarrow> (Inl e, st', w')
            | (Inr u, st', w') \<Rightarrow> run_tasks env ts st' w'))"

section \<open>Example values\<close>

text \<open>
  A world that is the list of the files written so far, newest first, with collaborators
  that always succeed: the version check is that of semver, no manifest is found on disk,
  every command runs and exits with success.
\<close>

definition example_env :: "(string \<times> string) list env" where
  "example_env =
     \<lparr>semverValid = semver_valid,
      pathJoin = (\<lambda>a b. a @ ''/'' @ b),
      pathDirname = (\<lambda>p. p),
      argv = [],
      existsSync = (\<lambda>p w. p \<in> set (map fst w)),
      readPkgUpSync = (\<lambda>cwd w. Inr None),
      writeFileSync = (\<lambda>p text w. (Inr (), (p, text) # w)),
      runSync = (\<lambda>cmd args w. (Inr (), w)),
      run = (\<lambda>cmd args cwd w. (Inr (), w))\<rparr>"

text \<open>A manifest with one exact version, one range and one tag among its dependencies.\<close>

definition example_manifest :: project_package_json where
  "example_manifest =
     \<lparr>rewrite = True,
      reinstall = True,
      raw = [(''name'', JStr ''demo''), (''version'', JStr ''1.0.0''), (''description'', JStr []),
             (''scripts'', JObj []),
             (''dependencies'',
                JObj [(''b'', JStr ''1.0.0''), (''a'', JStr ''^2.0.0''), (''pkg'', JStr ''latest'')]),
             (''devDependencies'',
                JObj [(''typescript'', JStr ''next''), (''jest'', JStr ''26.6.3'')])],
      configuration = \<lparr>name = JStr ''demo'', rootDir = Some ''/project'', root = None\<rparr>\<rparr>"

text \<open>The same collaborators on a disk that refuses every write.\<close>

definition read_only_env :: "(string \<times> string) list env" where
  "read_only_env =
     example_env\<lparr>writeFileSync := (\<lambda>p text w. (Inl (SystemError ''EACCES: permission denied''), w))\<rparr>"

text \<open>A manifest that is in step with the disk and has the one dependency
  \<^verbatim>\<open>"a": "1.0.0"\<close>.\<close>

definition scenario_manifest :: project_package_json where
  "scenario_manifest =
     \<lparr>rewrite = False,
      reinstall = False,
      raw = [(''name'', JStr ''demo''), (''version'', JStr ''1.0.0''), (''description'', JStr []),
             (''scripts'', JObj []),
             (''dependencies'', JObj [(''a'', JStr ''1.0.0'')]),
             (''devDependencies'', JObj [])],
      configuration = \<lparr>name = JStr ''demo'', rootDir = Some ''/project'', root = None\<rparr>\<rparr>"

text \<open>The same collaborators on a machine where every command fails because the
  lockfile is stale, and on a machine without yarn, where the probe throws.\<close>

definition stale_lockfile_env :: "(string \<times> string) list env" where
  "stale_lockfile_env =
     example_env\<lparr>run := (\<lambda>cmd args cwd w.
       (Inl (ExecaError ''Command failed with exit code 1''
               ''error Your lockfile needs to be updated, but yarn was run with --frozen-lockfile.''), w))\<rparr>"

definition no_yarn_env :: "(string \<times> string) list env" where
  "no_yarn_env =
     example_env\<lparr>runSync := (\<lambda>cmd args w. (Inl (SystemError ''spawnSync yarn ENOENT''), w))\<rparr>"

text \<open>
  A lookup to run the examples with: it follows a dotted path through the own properties
  of objects and answers undefined where there is nothing to follow. The examples call it
  on a key without a dot and a flat object, where it is the property read
  \<^verbatim>\<open>scope[key]\<close>.
\<close>

fun lookup_keys :: "string list \<Rightarrow> jsval \<Rightarrow> jsval" where
  "lookup_keys [] scope = scope"
| "lookup_keys (k # ks) scope =
     (case scope of JObj es \<Rightarrow> lookup_keys ks (obj_get es k) | _ \<Rightarrow> JUndefined)"

definition path_lookup :: "string \<Rightarrow> jsval \<Rightarrow> js_error + jsval" where
  "path_lookup expression scope = Inr (lookup_keys (split_on CHR ''.'' expression) scope)"

text \<open>A manifest whose dependencies have two keys that are array indices.\<close>

definition index_manifest :: project_package_json where
  "index_manifest =
     \<lparr>rewrite = True,
      reinstall = True,
      raw = [(''name'', JStr ''demo''), (''version'', JStr ''1.0.0''), (''description'', JStr []),
             (''scripts'', JObj []),
             (''dependencies'',
                JObj [(''9'', JStr ''1.0.0''), (''10'', JStr ''next''), (''b'', JStr ''2.0.0'')]),
             (''devDependencies'', JObj [])],
      configuration = \<lparr>name = JStr ''demo'', rootDir = Some ''/project'', root = None\<rparr>\<rparr>"

section \<open>Properties of objects\<close>

lemma obj_keys_Nil [simp]: "obj_keys [] = []"
  by (simp add: obj_keys_def)

lemma obj_keys_Cons [simp]: "obj_keys (e # es) = fst e # obj_keys es"
  by (simp add: obj_keys_def)

lemma obj_keys_append [simp]: "obj_keys (xs @ ys) = obj_keys xs @ obj_keys ys"
  by (simp add: obj_keys_def)

lemma keys_insert_index: "set (obj_keys (insert_index k v ob)) = insert k (set (obj_keys ob))"
  by (induction k v ob rule: insert_index.induct) (simp_all add: insert_commute)

lemma keys_update_in_place:
  "obj_keys (map (\<lambda>(k', v'). if k' = k then (k', v) else (k', v')) ob) = obj_keys ob"
  by (induction ob) (simp_all add: case_prod_beta)

lemma keys_obj_set: "set (obj_keys (obj_set ob k v)) = insert k (set (obj_keys ob))"
  by (simp add: obj_set_def keys_insert_index keys_update_in_place insert_absorb)

lemma distinct_insert_index:
  "k \<notin> set (obj_keys ob) \<Longrightarrow> distinct (obj_keys ob) \<Longrightarrow> distinct (obj_keys (insert_index k v ob))"
  by (induction k v ob rule: insert_index.induct) (auto simp: keys_insert_index)

lemma distinct_obj_set: "distinct (obj_keys ob) \<Longrightarrow> distinct (obj_keys (obj_set ob k v))"
  by (simp add: obj_set_def keys_update_in_place distinct_insert_index)

lemma map_of_insert_index: "k \<notin> set (obj_keys ob) \<Longrightarrow> map_of (insert_index k v ob) = (map_of ob)(k \<mapsto> v)"
  by (induction k v ob rule: insert_index.induct) (auto simp: fun_upd_twist)

lemma map_of_update_in_place:
  "map_of (map (\<lambda>(k', v'). if k' = k then (k', v) else (k', v')) ob) k'' =
     (if k'' = k \<and> k \<in> set (obj_keys ob) then Some v else map_of ob k'')"
  by (induction ob) (auto simp: case_prod_beta)

lemma map_of_append_new: "k \<notin> set (obj_keys ob) \<Longrightarrow> map_of (ob @ [(k, v)]) = (map_of ob)(k \<mapsto> v)"
  by (induction ob) (auto simp: fun_upd_twist)

lemma map_of_obj_set: "map_of (obj_set ob k v) = (map_of ob)(k \<mapsto> v)"
proof (cases "k \<in> set (obj_keys ob)")
  case True
  then show ?thesis
    by (auto simp: obj_set_def map_of_update_in_place fun_eq_iff)
next
  case False
  then show ?thesis
    by (simp add: obj_set_def map_of_insert_index map_of_append_new del: map_of_append)
qed

lemma obj_get_obj_set: "obj_get (obj_set ob k v) k' = (if k' = k then v else obj_get ob k')"
  by (simp add: obj_get_def map_of_obj_set)

lemma obj_spread_Nil [simp]: "obj_spread a [] = a"
  by (simp add: obj_spread_def)

lemma obj_spread_Cons [simp]: "obj_spread a ((k, v) # b) = obj_spread (obj_set a k v) b"
  by (simp add: obj_spread_def)

lemma keys_obj_spread: "set (obj_keys (obj_spread a b)) = set (obj_keys a) \<union> set (obj_keys b)"
  by (induction b arbitrary: a) (auto simp: keys_obj_set)

lemma distinct_obj_spread: "distinct (obj_keys a) \<Longrightarrow> distinct (obj_keys (obj_spread a b))"
  by (induction b arbitrary: a) (auto simp: distinct_obj_set)

lemma map_of_obj_spread:
  "distinct (obj_keys b) \<Longrightarrow> map_of (obj_spread a b) = map_of a ++ map_of b"
proof (induction b arbitrary: a)
  case Nil
  then show ?case by simp
next
  case (Cons e b)
  obtain k v where e: "e = (k, v)" by (cases e)
  from Cons.prems have k: "k \<notin> set (obj_keys b)" and d: "distinct (obj_keys b)"
    by (simp_all add: e)
  from k have n: "map_of b k = None"
    by (simp add: map_of_eq_None_iff obj_keys_def)
  have "map_of (obj_spread a (e # b)) = map_of (obj_set a k v) ++ map_of b"
    using Cons.IH [OF d, of "obj_set a k v"] by (simp add: e)
  also have "\<dots> = map_of a ++ map_of (e # b)"
  proof (rule ext)
    fix x
    show "(map_of (obj_set a k v) ++ map_of b) x = (map_of a ++ map_of (e # b)) x"
      using n by (cases "x = k") (simp_all add: map_of_obj_set map_add_def e split: option.splits)
  qed
  finally show ?case .
qed

text \<open>Two objects with the same properties have the same entries.\<close>

lemma entries_eqI:
  "distinct (obj_keys xs) \<Longrightarrow> distinct (obj_keys ys) \<Longrightarrow> map_of xs = map_of ys \<Longrightarrow> set xs = set ys"
  using map_of_inject_set [of xs ys] by (simp add: obj_keys_def)

lemma set_obj_spread_empty:
  assumes "distinct (obj_keys b)"
  shows "set (obj_spread [] b) = set b"
proof (rule entries_eqI)
  show "distinct (obj_keys (obj_spread [] b))"
    by (simp add: distinct_obj_spread)
  show "distinct (obj_keys b)"
    by (rule assms)
  show "map_of (obj_spread [] b) = map_of b"
    by (simp add: map_of_obj_spread assms)
qed

text \<open>The sorted list of the entries of an object depends on the entries only.\<close>

lemma sort_entries_unique:
  assumes "distinct (obj_keys xs)" "distinct (obj_keys ys)" "set xs = set ys"
  shows "sort_key fst xs = sort_key fst ys"
proof (rule map_sorted_distinct_set_unique [where f = fst])
  have "distinct (map fst xs)"
    using assms(1) by (simp add: obj_keys_def)
  then show "inj_on fst (set (sort_key fst xs) \<union> set (sort_key fst ys))"
    using assms(3) by (simp add: distinct_map)
  show "distinct (map fst (sort_key fst xs))"
    using assms(1) by (simp add: obj_keys_def distinct_map)
  show "distinct (map fst (sort_key fst ys))"
    using assms(2) by (simp add: obj_keys_def distinct_map)
qed (simp_all add: assms(3))

subsection \<open>Copying and setting\<close>

lemma distinct_copy: "distinct (obj_keys (obj_spread [] ob))"
  by (simp add: distinct_obj_spread)

lemma keys_copy: "set (obj_keys (obj_spread [] ob)) = set (obj_keys ob)"
  by (simp add: keys_obj_spread)

lemma map_of_copy: "distinct (obj_keys ob) \<Longrightarrow> map_of (obj_spread [] ob) = map_of ob"
  by (simp add: map_of_obj_spread)

lemma copy_fold_keys:
  "set (obj_keys (foldl (\<lambda>acc (key, v). if P v then obj_set (obj_spread [] acc) key v else acc) a es))
     = set (obj_keys a) \<union> set (obj_keys (filter (\<lambda>(key, v). P v) es))"
  by (induction es arbitrary: a) (auto simp: keys_obj_set keys_copy)

lemma copy_fold_distinct:
  "distinct (obj_keys a) \<Longrightarrow>
   distinct (obj_keys (foldl (\<lambda>acc (key, v). if P v then obj_set (obj_spread [] acc) key v else acc) a es))"
  by (induction es arbitrary: a) (auto simp: distinct_obj_set distinct_copy)

lemma copy_fold_map_of:
  "distinct (obj_keys a) \<Longrightarrow> distinct (obj_keys es) \<Longrightarrow>
   map_of (foldl (\<lambda>acc (key, v). if P v then obj_set (obj_spread [] acc) key v else acc) a es)
     = map_of a ++ map_of (filter (\<lambda>(key, v). P v) es)"
proof (induction es arbitrary: a)
  case Nil
  then show ?case by simp
next
  case (Cons e es)
  obtain k v where e: "e = (k, v)" by (cases e)
  let ?f = "filter (\<lambda>(key, v). P v) es"
  from Cons.prems have k: "k \<notin> set (obj_keys es)" and d: "distinct (obj_keys es)"
    by (simp_all add: e)
  show ?case
  proof (cases "P v")
    case False
    with Cons.IH [OF Cons.prems(1) d] show ?thesis
      by (simp add: e)
  next
    case True
    from k have n: "map_of ?f k = None"
      by (auto simp: map_of_eq_None_iff obj_keys_def)
    have step: "map_of (obj_set (obj_spread [] a) k v) = (map_of a)(k \<mapsto> v)"
      by (simp add: map_of_obj_set map_of_copy Cons.prems(1))
    have "distinct (obj_keys (obj_set (obj_spread [] a) k v))"
      by (simp add: distinct_obj_set distinct_copy)
    from Cons.IH [OF this d] True
    have "map_of (foldl (\<lambda>acc (key, v). if P v then obj_set (obj_spread [] acc) key v else acc) a (e # es))
        = map_of (obj_set (obj_spread [] a) k v) ++ map_of ?f"
      by (simp add: e)
    also have "\<dots> = map_of a ++ map_of (filter (\<lambda>(key, v). P v) (e # es))"
    proof (rule ext)
      fix x
      show "(map_of (obj_set (obj_spread [] a) k v) ++ map_of ?f) x
          = (map_of a ++ map_of (filter (\<lambda>(key, v). P v) (e # es))) x"
        using n True by (cases "x = k") (simp_all add: step map_add_def e split: option.splits)
    qed
    finally show ?thesis .
  qed
qed

subsection \<open>The two partitions and the sorted copy\<close>

lemma sorted_object_fold:
  "sorted_object es =
     foldl (\<lambda>acc (key, v). if (\<lambda>v. True) v then obj_set (obj_spread [] acc) key v else acc) []
       (sort_key fst es)"
  by (simp add: sorted_object_def)

lemma sortKeys_JObj: "sortKeys (JObj es) = Inr (sorted_object es)"
  by (simp add: sortKeys_def Object_entries_def)

lemma obj_keys_sort [simp]: "distinct (obj_keys (sort_key fst es)) = distinct (obj_keys es)"
  by (simp add: obj_keys_def distinct_map)

lemma map_of_sort_entries:
  "distinct (obj_keys es) \<Longrightarrow> map_of (sort_key fst es) = map_of es"
  using map_of_inject_set [of "sort_key fst es" es] by (simp add: obj_keys_def distinct_map)

lemma distinct_sorted_object: "distinct (obj_keys (sorted_object es))"
  unfolding sorted_object_fold by (rule copy_fold_distinct) simp

lemma map_of_sorted_object:
  assumes "distinct (obj_keys es)"
  shows "map_of (sorted_object es) = map_of es"
proof -
  have "map_of (sorted_object es) = map_of (filter (\<lambda>(key, v). True) (sort_key fst es))"
    unfolding sorted_object_fold using assms by (subst copy_fold_map_of) simp_all
  then show ?thesis
    by (simp add: map_of_sort_entries assms)
qed

lemma set_sorted_object: "distinct (obj_keys es) \<Longrightarrow> set (sorted_object es) = set es"
  by (rule entries_eqI) (simp_all add: distinct_sorted_object map_of_sorted_object)

lemma sortKeys_entries:
  assumes "distinct (obj_keys es)" and "sortKeys (JObj es) = Inr r"
  shows "distinct (obj_keys r)" and "map_of r = map_of es" and "set r = set es"
  using assms
  by (auto simp: sortKeys_JObj distinct_sorted_object map_of_sorted_object set_sorted_object)

lemma sorted_object_idem:
  assumes "distinct (obj_keys es)"
  shows "sorted_object (sorted_object es) = sorted_object es"
proof -
  have "sort_key fst (sorted_object es) = sort_key fst es"
    using assms by (intro sort_entries_unique) (simp_all add: distinct_sorted_object set_sorted_object)
  then show ?thesis
    by (simp add: sorted_object_def)
qed

lemma sortKeys_idem:
  assumes "distinct (obj_keys es)" and "sortKeys (JObj es) = Inr r"
  shows "sortKeys (JObj r) = Inr r"
  using assms by (auto simp: sortKeys_JObj sorted_object_idem)

lemma mapPackagesWithValidVersion_JObj:
  "mapPackagesWithValidVersion valid (JObj es) = Inr (valid_object valid es)"
  by (simp add: mapPackagesWithValidVersion_def Object_entries_def)

lemma mapPackagesWithInvalidVersion_JObj:
  "mapPackagesWithInvalidVersion valid (JObj es) = Inr (map toString (invalid_entries valid es))"
  by (simp add: mapPackagesWithInvalidVersion_def Object_entries_def)

lemma distinct_keys_filter: "distinct (obj_keys es) \<Longrightarrow> distinct (obj_keys (filter P es))"
  by (simp add: obj_keys_def distinct_map_filter)

lemma keys_valid_object:
  "set (obj_keys (valid_object valid es))
     = set (obj_keys (filter (\<lambda>(key, version). valid_version valid version) es))"
  unfolding valid_object_def by (simp add: copy_fold_keys)

lemma distinct_valid_object: "distinct (obj_keys (valid_object valid es))"
  unfolding valid_object_def by (rule copy_fold_distinct) simp

lemma set_valid_object:
  assumes "distinct (obj_keys es)"
  shows "set (valid_object valid es)
     = {(key, version). (key, version) \<in> set es \<and> valid_version valid version}"
proof -
  let ?f = "filter (\<lambda>(key, version). valid_version valid version) es"
  have "map_of (valid_object valid es) = map_of ?f"
    unfolding valid_object_def using assms by (subst copy_fold_map_of) simp_all
  then have "set (valid_object valid es) = set ?f"
    by (intro entries_eqI) (simp_all add: distinct_valid_object distinct_keys_filter assms)
  then show ?thesis
    by auto
qed

section \<open>Evaluation at concrete inputs\<close>

text \<open>The definitions that the simplifier unfolds to run the model on a concrete input.\<close>

lemmas numeral_defs = is_digit_def digit_val_def nat_of_digits_def canonical_numeral_def
  is_array_index_def

lemmas semver_defs = semver_valid_def main_version_def version_tail_def build_part_def
  prerelease_identifier_def build_identifier_def is_ident_char_def valid_version_def

lemmas object_defs = obj_set_def obj_get_def obj_spread_def Object_entries_def

lemmas partition_defs = mapPackagesWithInvalidVersion_def mapPackagesWithValidVersion_def
  sorted_object_def valid_object_def
  invalid_entries_def toString_def join_at_def ToString_def sortKeys_def

lemmas json_defs = JSON_stringify_def quote_def quote_char_def hex_digit_def

lemmas service_defs = dependencies_def devDependencies_def scripts_def dir_def path_def
  rootDir_string_def sort_dependencies_def write_json_def write_pkg_def assign_in_def
  addDependency_def addDevDependency_def addScript_def

lemmas example_defs = example_env_def example_manifest_def

lemmas template_defs = path_lookup_def ctx_tsedVersion_def match_token_def is_key_char_def
  replace_string_def version_or_empty_def default_scope_def devDependency_version_def
  dependency_version_def addDependencies_def addDevDependencies_def

lemmas install_defs = installWithYarn_def installWithNpm_def install_def select_packageManager_def
  hasYarn_def filter_Boolean_def verbose_flag_def errorPipe_def run_action_def

section \<open>The two partitions of a dependency map\<close>

lemma prefix_toString: "prefix (fst e) (toString e)"
  by (simp add: toString_def join_at_def)

lemma keys_partition:
  "set (obj_keys (filter P es)) \<union> set (obj_keys (filter (\<lambda>e. \<not> P e) es)) = set (obj_keys es)"
  by (auto simp: obj_keys_def)

lemma keys_partition_disjoint:
  "distinct (obj_keys es) \<Longrightarrow>
   set (obj_keys (filter P es)) \<inter> set (obj_keys (filter (\<lambda>e. \<not> P e) es)) = {}"
  by (induction es) (auto simp: obj_keys_def)

text \<open>
  C4. For every dependency map (an object, whose keys are distinct), the two partition
  functions succeed, the install targets are the texts of the entries that the version
  check rejects, each target beginning with the package name of its entry, and the keys
  of the valid partition together with the package names of the rejected entries are
  exactly the keys of the map, no name being on both sides.
\<close>

theorem partition_reconstructs_keys:
  assumes "distinct (obj_keys deps)"
  shows "\<exists>valid_part. mapPackagesWithValidVersion valid (JObj deps) = Inr valid_part
    \<and> mapPackagesWithInvalidVersion valid (JObj deps) = Inr (map toString (invalid_entries valid deps))
    \<and> list_all (\<lambda>e. prefix (fst e) (toString e)) (invalid_entries valid deps)
    \<and> set (obj_keys valid_part) \<union> set (obj_keys (invalid_entries valid deps)) = set (obj_keys deps)
    \<and> set (obj_keys valid_part) \<inter> set (obj_keys (invalid_entries valid deps)) = {}"
proof -
  let ?P = "\<lambda>(key, version). valid_version valid version"
  let ?valid_part = "valid_object valid deps"
  have inv: "invalid_entries valid deps = filter (\<lambda>e. \<not> ?P e) deps"
    by (simp add: invalid_entries_def case_prod_unfold)
  have keys: "set (obj_keys ?valid_part) = set (obj_keys (filter ?P deps))"
    by (rule keys_valid_object)
  have "mapPackagesWithValidVersion valid (JObj deps) = Inr ?valid_part"
    by (rule mapPackagesWithValidVersion_JObj)
  moreover have "mapPackagesWithInvalidVersion valid (JObj deps) = Inr (map toString (invalid_entries valid deps))"
    by (rule mapPackagesWithInvalidVersion_JObj)
  moreover have "list_all (\<lambda>e. prefix (fst e) (toString e)) (invalid_entries valid deps)"
    by (simp add: list_all_iff prefix_toString)
  moreover have "set (obj_keys ?valid_part) \<union> set (obj_keys (invalid_entries valid deps)) = set (obj_keys deps)"
    unfolding keys inv by (rule keys_partition)
  moreover have "set (obj_keys ?valid_part) \<inter> set (obj_keys (invalid_entries valid deps)) = {}"
    unfolding keys inv using assms by (rule keys_partition_disjoint)
  ultimately show ?thesis
    by blast
qed

theorem partition_reconstructs_keys_witness:
  "distinct (obj_keys [(''b'', JStr ''1.0.0''), (''a'', JStr ''^2.0.0''), (''pkg'', JStr ''latest'')])
   \<and> mapPackagesWithValidVersion semver_valid
        (JObj [(''b'', JStr ''1.0.0''), (''a'', JStr ''^2.0.0''), (''pkg'', JStr ''latest'')])
       = Inr [(''b'', JStr ''1.0.0'')]
   \<and> mapPackagesWithInvalidVersion semver_valid
        (JObj [(''b'', JStr ''1.0.0''), (''a'', JStr ''^2.0.0''), (''pkg'', JStr ''latest'')])
       = Inr [''a@^2.0.0'', ''pkg'']
   \<and> (\<exists>valid_part. mapPackagesWithValidVersion semver_valid
        (JObj [(''b'', JStr ''1.0.0''), (''a'', JStr ''^2.0.0''), (''pkg'', JStr ''latest'')]) = Inr valid_part
      \<and> set (obj_keys valid_part) \<union> {''a'', ''pkg''} = {''b'', ''a'', ''pkg''}
      \<and> set (obj_keys valid_part) \<inter> {''a'', ''pkg''} = {})"
  using partition_reconstructs_keys
    [of "[(''b'', JStr ''1.0.0''), (''a'', JStr ''^2.0.0''), (''pkg'', JStr ''latest'')]" semver_valid]
  by (simp add: numeral_defs semver_defs object_defs partition_defs)

section \<open>Writing the manifest to disk\<close>

subsection \<open>What \<^verbatim>\<open>write()\<close> does to a manifest with two dependency maps\<close>

lemma key_present: "obj_get r k = JObj d \<Longrightarrow> k \<in> set (obj_keys r)"
proof -
  assume "obj_get r k = JObj d"
  then have "map_of r k \<noteq> None"
    by (auto simp: obj_get_def split: option.splits)
  then show ?thesis
    by (simp add: map_of_eq_None_iff obj_keys_def)
qed

lemma obj_set_present:
  "k \<in> set (obj_keys r) \<Longrightarrow>
   obj_set r k v = map (\<lambda>(k', v'). if k' = k then (k', v) else (k', v')) r"
  by (simp add: obj_set_def)

lemma obj_keys_obj_set_present: "k \<in> set (obj_keys r) \<Longrightarrow> obj_keys (obj_set r k v) = obj_keys r"
  by (simp add: obj_set_present keys_update_in_place)

lemma obj_set_twice_present:
  assumes "k \<in> set (obj_keys r)"
  shows "obj_set (obj_set r k v) k v' = obj_set r k v'"
proof -
  have "k \<in> set (obj_keys (obj_set r k v))"
    by (simp add: keys_obj_set)
  then show ?thesis
    using assms by (simp add: obj_set_present [of k]) auto
qed

lemma obj_set_commute_present:
  assumes "k1 \<in> set (obj_keys r)" "k2 \<in> set (obj_keys r)" "k1 \<noteq> k2"
  shows "obj_set (obj_set r k1 v1) k2 v2 = obj_set (obj_set r k2 v2) k1 v1"
proof -
  have "k2 \<in> set (obj_keys (obj_set r k1 v1))" "k1 \<in> set (obj_keys (obj_set r k2 v2))"
    using assms by (simp_all add: keys_obj_set)
  then show ?thesis
    using assms by (simp add: obj_set_present [of k1] obj_set_present [of k2]) auto
qed

lemma sort_dependencies_JObj:
  assumes "dependencies st = JObj d" and "devDependencies st = JObj dd"
  shows "sort_dependencies st =
    Inr (st\<lparr>raw := obj_set (obj_set (raw st) ''devDependencies''
                  (JObj (sorted_object dd)))
                ''dependencies'' (JObj (sorted_object d)),
            rewrite := False\<rparr>)"
  using assms
  by (simp add: sort_dependencies_def dependencies_def devDependencies_def sortKeys_JObj
      obj_get_obj_set Let_def)

lemma sort_dependencies_idem:
  assumes "dependencies st = JObj d" and "devDependencies st = JObj dd"
    and "distinct (obj_keys d)" and "distinct (obj_keys dd)"
    and "sort_dependencies st = Inr st'"
  shows "sort_dependencies st' = Inr st'"
proof -
  let ?d = "sorted_object d" and ?dd = "sorted_object dd"
  have st': "st' = st\<lparr>raw := obj_set (obj_set (raw st) ''devDependencies'' (JObj ?dd))
      ''dependencies'' (JObj ?d), rewrite := False\<rparr>"
    using sort_dependencies_JObj [OF assms(1,2)] assms(5) by simp
  have d: "dependencies st' = JObj ?d" and dd: "devDependencies st' = JObj ?dd"
    by (simp_all add: st' dependencies_def devDependencies_def obj_get_obj_set)
  have sd: "sorted_object ?d = ?d" and sdd: "sorted_object ?dd = ?dd"
    using assms(3,4) by (simp_all add: sorted_object_idem)
  have k1: "''devDependencies'' \<in> set (obj_keys (raw st))"
    using assms(2) by (auto simp: devDependencies_def intro: key_present)
  have k2: "''dependencies'' \<in> set (obj_keys (raw st))"
    using assms(1) by (auto simp: dependencies_def intro: key_present)
  have "obj_set (obj_set (raw st') ''devDependencies'' (JObj ?dd)) ''dependencies'' (JObj ?d) = raw st'"
    using k1 k2
    by (simp add: st' obj_set_commute_present [of "''dependencies''" _ "''devDependencies''"]
        obj_set_twice_present keys_obj_set)
  then show ?thesis
    using sort_dependencies_JObj [OF d dd] by (simp add: sd sdd st')
qed

lemma write_json_JObj:
  assumes "obj_get r ''dependencies'' = JObj d" and "obj_get r ''devDependencies'' = JObj dd"
  shows "write_json valid r = Inr (obj_set (obj_set (obj_spread [] r)
      ''dependencies'' (JObj (obj_spread [] (valid_object valid d))))
      ''devDependencies'' (JObj (obj_spread [] (valid_object valid dd))))"
  using assms by (simp add: write_json_def mapPackagesWithValidVersion_JObj)

subsection \<open>The key order of a sorted object\<close>

lemma key_before_index:
  "is_array_index k \<Longrightarrow> \<not> (is_array_index k' \<and> nat_of_digits k' < nat_of_digits k) \<Longrightarrow>
   key_before k k'"
  by (simp add: key_before_def not_less)

lemma key_before_index_trans:
  assumes "is_array_index k" and "key_before k k'" and "key_before k' x"
  shows "key_before k x"
proof (cases "is_array_index x")
  case False
  with assms(1) show ?thesis
    by (simp add: key_before_def)
next
  case True
  with assms(3) have k': "is_array_index k'" and "nat_of_digits k' \<le> nat_of_digits x"
    by (simp_all add: key_before_def split: if_splits)
  moreover from assms(1,2) k' have "nat_of_digits k \<le> nat_of_digits k'"
    by (simp add: key_before_def)
  ultimately show ?thesis
    using assms(1) True by (simp add: key_before_def)
qed

lemma insert_index_ordered:
  "is_array_index k \<Longrightarrow> sorted_wrt key_before (obj_keys ob) \<Longrightarrow>
   sorted_wrt key_before (obj_keys (insert_index k v ob))"
proof (induction k v ob rule: insert_index.induct)
  case (1 k v)
  then show ?case by simp
next
  case (2 k v k' v' es)
  show ?case
  proof (cases "is_array_index k' \<and> nat_of_digits k' < nat_of_digits k")
    case True
    then have "key_before k' k"
      by (simp add: key_before_def)
    with True 2 show ?thesis
      by (simp add: keys_insert_index)
  next
    case False
    have first: "key_before k k'"
      using 2(2) False by (rule key_before_index)
    have "key_before k x" if "x \<in> set (obj_keys es)" for x
    proof (rule key_before_index_trans [OF 2(2) first])
      show "key_before k' x"
        using 2(3) that by simp
    qed
    with first False 2(3) show ?thesis
      by auto
  qed
qed

lemma append_ordered:
  "\<not> is_array_index k \<Longrightarrow> sorted_wrt key_before (obj_keys ob) \<Longrightarrow>
   \<forall>x \<in> set (obj_keys ob). \<not> is_array_index x \<longrightarrow> x \<le> k \<Longrightarrow>
   sorted_wrt key_before (obj_keys ob @ [k])"
  by (auto simp: sorted_wrt_append key_before_def)

lemma plain_keys_sorted:
  "sorted_wrt key_before ks \<Longrightarrow> sorted (filter (\<lambda>k. \<not> is_array_index k) ks)"
proof (induction ks)
  case Nil
  then show ?case by simp
next
  case (Cons k ks)
  have "k \<le> x" if "\<not> is_array_index k" "x \<in> set ks" "\<not> is_array_index x" for x
  proof -
    from Cons.prems that(2) have "key_before k x"
      by simp
    with that(1) show ?thesis
      by (simp add: key_before_def)
  qed
  with Cons show ?case
    by auto
qed

lemma obj_spread_ordered:
  "sorted (filter (\<lambda>k. \<not> is_array_index k) (obj_keys es)) \<Longrightarrow> distinct (obj_keys es) \<Longrightarrow>
   sorted_wrt key_before (obj_keys acc) \<Longrightarrow>
   set (obj_keys acc) \<inter> set (obj_keys es) = {} \<Longrightarrow>
   \<forall>x \<in> set (obj_keys acc). \<forall>y \<in> set (obj_keys es).
      \<not> is_array_index x \<longrightarrow> \<not> is_array_index y \<longrightarrow> x \<le> y \<Longrightarrow>
   sorted_wrt key_before (obj_keys (obj_spread acc es))"
proof (induction es arbitrary: acc)
  case Nil
  then show ?case by simp
next
  case (Cons e es)
  obtain k v where e: "e = (k, v)" by (cases e)
  from Cons.prems have new: "k \<notin> set (obj_keys acc)"
    by (auto simp: e)
  have ordered: "sorted_wrt key_before (obj_keys (obj_set acc k v))"
  proof (cases "is_array_index k")
    case True
    with new Cons.prems(3) show ?thesis
      by (simp add: obj_set_def insert_index_ordered)
  next
    case False
    with new Cons.prems(3,5) show ?thesis
      by (simp add: obj_set_def e append_ordered)
  qed
  have "sorted_wrt key_before (obj_keys (obj_spread (obj_set acc k v) es))"
  proof (rule Cons.IH)
    show "sorted (filter (\<lambda>k. \<not> is_array_index k) (obj_keys es))"
      using Cons.prems(1) by (cases "is_array_index k") (simp_all add: e)
    show "distinct (obj_keys es)"
      using Cons.prems(2) by simp
    show "sorted_wrt key_before (obj_keys (obj_set acc k v))"
      by (rule ordered)
    show "set (obj_keys (obj_set acc k v)) \<inter> set (obj_keys es) = {}"
      using Cons.prems(2,4) by (auto simp: keys_obj_set e)
    show "\<forall>x \<in> set (obj_keys (obj_set acc k v)). \<forall>y \<in> set (obj_keys es).
        \<not> is_array_index x \<longrightarrow> \<not> is_array_index y \<longrightarrow> x \<le> y"
      using Cons.prems(1,5) by (auto simp: keys_obj_set e)
  qed
  then show ?case
    by (simp add: e)
qed

lemma copy_ordered:
  assumes "sorted_wrt key_before (obj_keys ob)" and "distinct (obj_keys ob)"
  shows "sorted_wrt key_before (obj_keys (obj_spread [] ob))"
  using plain_keys_sorted [OF assms(1)] assms(2) by (rule obj_spread_ordered) simp_all

lemma sorted_fold_ordered:
  "sorted (obj_keys es) \<Longrightarrow> distinct (obj_keys es) \<Longrightarrow>
   sorted_wrt key_before (obj_keys acc) \<Longrightarrow> distinct (obj_keys acc) \<Longrightarrow>
   set (obj_keys acc) \<inter> set (obj_keys es) = {} \<Longrightarrow>
   \<forall>x \<in> set (obj_keys acc). \<forall>y \<in> set (obj_keys es). x \<le> y \<Longrightarrow>
   sorted_wrt key_before
     (obj_keys (foldl (\<lambda>ob (key, v). obj_set (obj_spread [] ob) key v) acc es))"
proof (induction es arbitrary: acc)
  case Nil
  then show ?case by simp
next
  case (Cons e es)
  obtain k v where e: "e = (k, v)" by (cases e)
  let ?copy = "obj_spread [] acc"
  have copy: "sorted_wrt key_before (obj_keys ?copy)"
    using Cons.prems(3,4) by (rule copy_ordered)
  from Cons.prems have new: "k \<notin> set (obj_keys ?copy)"
    by (auto simp: e keys_copy)
  have ordered: "sorted_wrt key_before (obj_keys (obj_set ?copy k v))"
  proof (cases "is_array_index k")
    case True
    with new copy show ?thesis
      by (simp add: obj_set_def insert_index_ordered)
  next
    case False
    have "\<forall>x \<in> set (obj_keys ?copy). \<not> is_array_index x \<longrightarrow> x \<le> k"
      using Cons.prems(6) by (simp add: keys_copy e)
    with False new copy show ?thesis
      by (simp add: obj_set_def append_ordered)
  qed
  have "sorted_wrt key_before
      (obj_keys (foldl (\<lambda>ob (key, v). obj_set (obj_spread [] ob) key v) (obj_set ?copy k v) es))"
  proof (rule Cons.IH)
    show "sorted (obj_keys es)" "distinct (obj_keys es)"
      using Cons.prems(1,2) by simp_all
    show "sorted_wrt key_before (obj_keys (obj_set ?copy k v))"
      by (rule ordered)
    show "distinct (obj_keys (obj_set ?copy k v))"
      by (simp add: distinct_obj_set distinct_copy)
    show "set (obj_keys (obj_set ?copy k v)) \<inter> set (obj_keys es) = {}"
      using Cons.prems(2,5) by (auto simp: keys_obj_set keys_copy e)
    show "\<forall>x \<in> set (obj_keys (obj_set ?copy k v)). \<forall>y \<in> set (obj_keys es). x \<le> y"
      using Cons.prems(1,6) by (auto simp: keys_obj_set keys_copy e)
  qed
  then show ?case
    by (simp add: e)
qed

lemma sortKeys_ordered:
  assumes "distinct (obj_keys es)" and "sortKeys (JObj es) = Inr r"
  shows "sorted_wrt key_before (obj_keys r)"
proof -
  from assms(2) have r: "r = sorted_object es"
    by (simp add: sortKeys_JObj)
  have "sorted (obj_keys (sort_key fst es))"
    by (simp add: obj_keys_def)
  then show ?thesis
    unfolding r sorted_object_def using assms(1) by (intro sorted_fold_ordered) simp_all
qed

lemma key_before_plain:
  "\<forall>k \<in> set ks. \<not> is_array_index k \<Longrightarrow> sorted_wrt key_before ks = sorted ks"
  by (induction ks) (auto simp: key_before_def)

subsection \<open>The text written and the state left\<close>

lemma write_pkg_sorted:
  "sort_dependencies st = Inr st' \<Longrightarrow> write_json (semverValid env) (raw st') = Inr json \<Longrightarrow>
   write_pkg env st w =
     (fst (writeFileSync env (path env st') (JSON_stringify json) w), st',
      snd (writeFileSync env (path env st') (JSON_stringify json) w))"
  by (simp add: write_pkg_def case_prod_unfold)

lemma write_pkg_state:
  assumes "dependencies st = JObj d" and "devDependencies st = JObj dd"
  shows "fst (snd (write_pkg env st w)) =
    st\<lparr>raw := obj_set (obj_set (raw st) ''devDependencies''
              (JObj (sorted_object dd)))
            ''dependencies'' (JObj (sorted_object d)),
        rewrite := False\<rparr>"
proof -
  let ?r = "obj_set (obj_set (raw st) ''devDependencies'' (JObj (sorted_object dd)))
      ''dependencies'' (JObj (sorted_object d))"
  let ?st = "st\<lparr>raw := ?r, rewrite := False\<rparr>"
  have sorted: "sort_dependencies st = Inr ?st"
    by (rule sort_dependencies_JObj [OF assms])
  obtain json where "write_json (semverValid env) (raw ?st) = Inr json"
    using write_json_JObj [of ?r _ _ "semverValid env"] by (simp add: obj_get_obj_set)
  with sorted show ?thesis
    by (simp add: write_pkg_sorted)
qed

text \<open>
  C1, as the code has it. For every manifest whose two dependency maps are objects,
  \<^verbatim>\<open>write()\<close> sorts the maps, builds the object \<open>json\<close> and hands its JSON text
  to \<^verbatim>\<open>writeFileSync\<close> at the path of the manifest. The entries of
  \<^verbatim>\<open>dependencies\<close> and \<^verbatim>\<open>devDependencies\<close> in that object are exactly the entries of
  the maps whose version \<^verbatim>\<open>semver.valid\<close> accepts; every other entry is left out.
  The check accepts one full version only, so an entry whose version is a range is left
  out as well.
\<close>

theorem write_persists_valid_versions:
  assumes "dependencies st = JObj d" and "devDependencies st = JObj dd"
    and "distinct (obj_keys d)" and "distinct (obj_keys dd)"
  shows "\<exists>st' json persisted persisted_dev.
      sort_dependencies st = Inr st'
    \<and> write_json (semverValid env) (raw st') = Inr json
    \<and> write_pkg env st w =
        (fst (writeFileSync env (path env st) (JSON_stringify json) w), st',
         snd (writeFileSync env (path env st) (JSON_stringify json) w))
    \<and> obj_get json ''dependencies'' = JObj persisted
    \<and> obj_get json ''devDependencies'' = JObj persisted_dev
    \<and> distinct (obj_keys persisted) \<and> distinct (obj_keys persisted_dev)
    \<and> set persisted = {(key, version). (key, version) \<in> set d \<and> valid_version (semverValid env) version}
    \<and> set persisted_dev = {(key, version). (key, version) \<in> set dd \<and> valid_version (semverValid env) version}"
proof -
  let ?P = "\<lambda>(key, version). valid_version (semverValid env) version"
  let ?d = "sorted_object d" and ?dd = "sorted_object dd"
  let ?r = "obj_set (obj_set (raw st) ''devDependencies'' (JObj ?dd)) ''dependencies'' (JObj ?d)"
  let ?st = "st\<lparr>raw := ?r, rewrite := False\<rparr>"
  let ?p = "obj_spread [] (valid_object (semverValid env) ?d)"
  let ?pd = "obj_spread [] (valid_object (semverValid env) ?dd)"
  let ?json = "obj_set (obj_set (obj_spread [] ?r) ''dependencies'' (JObj ?p))
      ''devDependencies'' (JObj ?pd)"
  have sorted: "sort_dependencies st = Inr ?st"
    by (rule sort_dependencies_JObj [OF assms(1,2)])
  have json: "write_json (semverValid env) ?r = Inr ?json"
    by (rule write_json_JObj) (simp_all add: obj_get_obj_set)
  have path: "path env ?st = path env st"
    by (simp add: path_def dir_def)
  have written: "write_pkg env st w =
      (fst (writeFileSync env (path env st) (JSON_stringify ?json) w), ?st,
       snd (writeFileSync env (path env st) (JSON_stringify ?json) w))"
    by (simp add: write_pkg_def sorted json path case_prod_unfold)
  have sd: "distinct (obj_keys ?d)" "set ?d = set d"
    using sortKeys_entries [OF assms(3), of ?d] by (simp_all add: sortKeys_JObj)
  have sdd: "distinct (obj_keys ?dd)" "set ?dd = set dd"
    using sortKeys_entries [OF assms(4), of ?dd] by (simp_all add: sortKeys_JObj)
  have p: "set ?p = {(key, version). (key, version) \<in> set d \<and> valid_version (semverValid env) version}"
    using sd by (simp add: set_obj_spread_empty distinct_valid_object set_valid_object)
  have pd: "set ?pd = {(key, version). (key, version) \<in> set dd \<and> valid_version (semverValid env) version}"
    using sdd by (simp add: set_obj_spread_empty distinct_valid_object set_valid_object)
  have "obj_get ?json ''dependencies'' = JObj ?p" "obj_get ?json ''devDependencies'' = JObj ?pd"
    by (simp_all add: obj_get_obj_set)
  moreover have "distinct (obj_keys ?p)" "distinct (obj_keys ?pd)"
    by (simp_all add: distinct_obj_spread)
  moreover have "write_json (semverValid env) (raw ?st) = Inr ?json"
    using json by simp
  ultimately show ?thesis
    using sorted written p pd by blast
qed

theorem write_persists_valid_versions_witness:
  "dependencies example_manifest = JObj [(''b'', JStr ''1.0.0''), (''a'', JStr ''^2.0.0''), (''pkg'', JStr ''latest'')]
   \<and> devDependencies example_manifest = JObj [(''typescript'', JStr ''next''), (''jest'', JStr ''26.6.3'')]
   \<and> distinct (obj_keys [(''b'', JStr ''1.0.0''), (''a'', JStr ''^2.0.0''), (''pkg'', JStr ''latest'')])
   \<and> distinct (obj_keys [(''typescript'', JStr ''next''), (''jest'', JStr ''26.6.3'')])
   \<and> (\<exists>st' json. sort_dependencies example_manifest = Inr st'
      \<and> write_json semver_valid (raw st') = Inr json
      \<and> obj_get json ''dependencies'' = JObj [(''b'', JStr ''1.0.0'')]
      \<and> obj_get json ''devDependencies'' = JObj [(''jest'', JStr ''26.6.3'')])"
  using write_persists_valid_versions
    [of example_manifest "[(''b'', JStr ''1.0.0''), (''a'', JStr ''^2.0.0''), (''pkg'', JStr ''latest'')]" "[(''typescript'', JStr ''next''), (''jest'', JStr ''26.6.3'')]" example_env "[]"]
  by (simp add: example_defs numeral_defs semver_defs object_defs partition_defs json_defs service_defs)

text \<open>
  The claim C1 as it is stated fails on a range: the dependency \<^verbatim>\<open>a\<close> of the example
  manifest has the caret range \<^verbatim>\<open>^2.0.0\<close> for its version, and the text that
  \<^verbatim>\<open>write()\<close> puts on disk has no entry for it.
\<close>

theorem range_version_not_persisted:
  \<open>dependencies example_manifest = JObj [(''b'', JStr ''1.0.0''), (''a'', JStr ''^2.0.0''), (''pkg'', JStr ''latest'')]
   \<and> caret_range ''^2.0.0''
   \<and> write_pkg example_env example_manifest [] =
      (Inr (),
       example_manifest\<lparr>rewrite := False, raw := [(''name'', JStr ''demo''), (''version'', JStr ''1.0.0''),
      (''description'', JStr []), (''scripts'', JObj []),
      (''dependencies'', JObj [(''a'', JStr ''^2.0.0''), (''b'', JStr ''1.0.0''), (''pkg'', JStr ''latest'')]),
      (''devDependencies'', JObj [(''jest'', JStr ''26.6.3''), (''typescript'', JStr ''next'')])]\<rparr>,
       [(''/project/package.json'',
         ''{\<newline>  "name": "demo",\<newline>  "version": "1.0.0",\<newline>  "description": "",\<newline>  "scripts": {},\<newline>  "dependencies": {\<newline>    "b": "1.0.0"\<newline>  },\<newline>  "devDependencies": {\<newline>    "jest": "26.6.3"\<newline>  }\<newline>}'')])\<close>
  by (simp add: example_defs numeral_defs semver_defs caret_range_def object_defs partition_defs json_defs service_defs)

text \<open>
  C5. For every manifest whose two dependency maps are objects, a second
  \<^verbatim>\<open>write()\<close> straight after the first, in whatever world the first one left, hands
  \<^verbatim>\<open>writeFileSync\<close> the same path and the same text as the first, and leaves the
  state that the first one left.
\<close>

theorem write_twice_same_text:
  assumes "dependencies st = JObj d" and "devDependencies st = JObj dd"
    and "distinct (obj_keys d)" and "distinct (obj_keys dd)"
  shows "\<exists>st1 json.
      sort_dependencies st = Inr st1
    \<and> write_json (semverValid env) (raw st1) = Inr json
    \<and> write_pkg env st w =
        (fst (writeFileSync env (path env st) (JSON_stringify json) w), st1,
         snd (writeFileSync env (path env st) (JSON_stringify json) w))
    \<and> write_pkg env st1 w1 =
        (fst (writeFileSync env (path env st) (JSON_stringify json) w1), st1,
         snd (writeFileSync env (path env st) (JSON_stringify json) w1))"
proof -
  let ?d = "sorted_object d" and ?dd = "sorted_object dd"
  let ?r = "obj_set (obj_set (raw st) ''devDependencies'' (JObj ?dd)) ''dependencies'' (JObj ?d)"
  let ?st = "st\<lparr>raw := ?r, rewrite := False\<rparr>"
  have first: "sort_dependencies st = Inr ?st"
    by (rule sort_dependencies_JObj [OF assms(1,2)])
  have second: "sort_dependencies ?st = Inr ?st"
    using assms first by (rule sort_dependencies_idem)
  obtain json where json: "write_json (semverValid env) (raw ?st) = Inr json"
    using write_json_JObj [of ?r ?d ?dd "semverValid env"]
    by (simp add: obj_get_obj_set)
  have path: "path env ?st = path env st"
    by (simp add: path_def dir_def)
  from write_pkg_sorted [OF first json] write_pkg_sorted [OF second json] first json
  show ?thesis
    unfolding path by blast
qed

theorem write_twice_same_text_witness:
  \<open>dependencies example_manifest = JObj [(''b'', JStr ''1.0.0''), (''a'', JStr ''^2.0.0''), (''pkg'', JStr ''latest'')]
   \<and> devDependencies example_manifest = JObj [(''typescript'', JStr ''next''), (''jest'', JStr ''26.6.3'')]
   \<and> distinct (obj_keys [(''b'', JStr ''1.0.0''), (''a'', JStr ''^2.0.0''), (''pkg'', JStr ''latest'')])
   \<and> distinct (obj_keys [(''typescript'', JStr ''next''), (''jest'', JStr ''26.6.3'')])
   \<and> snd (snd (write_pkg example_env
        (fst (snd (write_pkg example_env example_manifest [])))
        (snd (snd (write_pkg example_env example_manifest []))))) =
      [(''/project/package.json'',
        ''{\<newline>  "name": "demo",\<newline>  "version": "1.0.0",\<newline>  "description": "",\<newline>  "scripts": {},\<newline>  "dependencies": {\<newline>    "b": "1.0.0"\<newline>  },\<newline>  "devDependencies": {\<newline>    "jest": "26.6.3"\<newline>  }\<newline>}''),
       (''/project/package.json'',
        ''{\<newline>  "name": "demo",\<newline>  "version": "1.0.0",\<newline>  "description": "",\<newline>  "scripts": {},\<newline>  "dependencies": {\<newline>    "b": "1.0.0"\<newline>  },\<newline>  "devDependencies": {\<newline>    "jest": "26.6.3"\<newline>  }\<newline>}'')]\<close>
  using write_twice_same_text
    [of example_manifest "[(''b'', JStr ''1.0.0''), (''a'', JStr ''^2.0.0''), (''pkg'', JStr ''latest'')]" "[(''typescript'', JStr ''next''), (''jest'', JStr ''26.6.3'')]" example_env "[]"]
  by (simp add: example_defs numeral_defs semver_defs object_defs partition_defs json_defs service_defs)

text \<open>
  C10, as the code has it. For every manifest whose two dependency maps are objects,
  \<^verbatim>\<open>write()\<close> removes nothing from memory: the state it leaves holds the sorted
  copies of the two maps, and each has the entries of the map before the call, every key
  with the version it had, placeholder versions included. The copies list their keys in
  the order \<open>key_before\<close>, which is the order in which JavaScript lists the keys of an
  object built in ascending order of the code units: the keys that are array indices
  first, by number, then every other key in ascending order of the code units. When no
  key is an array index this is sorted order. The keys of the manifest, every other
  property, the flag \<^verbatim>\<open>reinstall\<close> and the configuration are as before, and
  \<^verbatim>\<open>rewrite\<close> is cleared; whether the file system accepts the text does not matter.
  The entries whose version \<^verbatim>\<open>semver.valid\<close> rejects are left out of the object
  \<open>json\<close> only, whose text \<^verbatim>\<open>write()\<close> hands to \<^verbatim>\<open>writeFileSync\<close>: its two
  maps hold exactly the entries of the maps in memory with a version that the check
  accepts, and its other properties are those of the manifest in memory.
\<close>

theorem write_keeps_memory:
  assumes "dependencies st = JObj d" and "devDependencies st = JObj dd"
    and "distinct (obj_keys d)" and "distinct (obj_keys dd)"
  shows "\<exists>st' d' dd' json persisted persisted_dev.
      write_pkg env st w =
        (fst (writeFileSync env (path env st) (JSON_stringify json) w), st',
         snd (writeFileSync env (path env st) (JSON_stringify json) w))
    \<and> dependencies st' = JObj d' \<and> devDependencies st' = JObj dd'
    \<and> sortKeys (JObj d) = Inr d' \<and> sortKeys (JObj dd) = Inr dd'
    \<and> set d' = set d \<and> set dd' = set dd
    \<and> map_of d' = map_of d \<and> map_of dd' = map_of dd
    \<and> distinct (obj_keys d') \<and> distinct (obj_keys dd')
    \<and> sorted_wrt key_before (obj_keys d') \<and> sorted_wrt key_before (obj_keys dd')
    \<and> ((\<forall>k \<in> set (obj_keys d). \<not> is_array_index k) \<longrightarrow> sorted (obj_keys d'))
    \<and> ((\<forall>k \<in> set (obj_keys dd). \<not> is_array_index k) \<longrightarrow> sorted (obj_keys dd'))
    \<and> obj_keys (raw st') = obj_keys (raw st)
    \<and> (\<forall>k. k \<noteq> ''dependencies'' \<and> k \<noteq> ''devDependencies'' \<longrightarrow> obj_get (raw st') k = obj_get (raw st) k)
    \<and> reinstall st' = reinstall st \<and> configuration st' = configuration st \<and> \<not> rewrite st'
    \<and> write_json (semverValid env) (raw st') = Inr json
    \<and> obj_get json ''dependencies'' = JObj persisted
    \<and> obj_get json ''devDependencies'' = JObj persisted_dev
    \<and> distinct (obj_keys persisted) \<and> distinct (obj_keys persisted_dev)
    \<and> set persisted = {(key, version). (key, version) \<in> set d' \<and> valid_version (semverValid env) version}
    \<and> set persisted_dev = {(key, version). (key, version) \<in> set dd' \<and> valid_version (semverValid env) version}
    \<and> (distinct (obj_keys (raw st)) \<longrightarrow>
         (\<forall>k. k \<noteq> ''dependencies'' \<and> k \<noteq> ''devDependencies'' \<longrightarrow> obj_get json k = obj_get (raw st') k))"
proof -
  let ?d = "sorted_object d" and ?dd = "sorted_object dd"
  let ?r = "obj_set (obj_set (raw st) ''devDependencies'' (JObj ?dd)) ''dependencies'' (JObj ?d)"
  let ?st = "st\<lparr>raw := ?r, rewrite := False\<rparr>"
  let ?p = "obj_spread [] (valid_object (semverValid env) ?d)"
  let ?pd = "obj_spread [] (valid_object (semverValid env) ?dd)"
  let ?json = "obj_set (obj_set (obj_spread [] ?r) ''dependencies'' (JObj ?p))
      ''devDependencies'' (JObj ?pd)"
  have sd: "sortKeys (JObj d) = Inr ?d" and sdd: "sortKeys (JObj dd) = Inr ?dd"
    by (simp_all add: sortKeys_JObj)
  have k1: "''devDependencies'' \<in> set (obj_keys (raw st))"
    using assms(2) by (auto simp: devDependencies_def intro: key_present)
  have k2: "''dependencies'' \<in> set (obj_keys (raw st))"
    using assms(1) by (auto simp: dependencies_def intro: key_present)
  have sorted: "sort_dependencies st = Inr ?st"
    by (rule sort_dependencies_JObj [OF assms(1,2)])
  have json: "write_json (semverValid env) ?r = Inr ?json"
    by (rule write_json_JObj) (simp_all add: obj_get_obj_set)
  have path: "path env ?st = path env st"
    by (simp add: path_def dir_def)
  have written: "write_pkg env st w =
      (fst (writeFileSync env (path env st) (JSON_stringify ?json) w), ?st,
       snd (writeFileSync env (path env st) (JSON_stringify ?json) w))"
    by (simp add: write_pkg_def sorted json path case_prod_unfold)
  have memory: "dependencies ?st = JObj ?d" "devDependencies ?st = JObj ?dd"
    by (simp_all add: dependencies_def devDependencies_def obj_get_obj_set)
  have ed: "set ?d = set d" "map_of ?d = map_of d" "distinct (obj_keys ?d)"
    using sortKeys_entries [OF assms(3) sd] by simp_all
  have edd: "set ?dd = set dd" "map_of ?dd = map_of dd" "distinct (obj_keys ?dd)"
    using sortKeys_entries [OF assms(4) sdd] by simp_all
  have ordered: "sorted_wrt key_before (obj_keys ?d)" "sorted_wrt key_before (obj_keys ?dd)"
    using sortKeys_ordered [OF assms(3) sd] sortKeys_ordered [OF assms(4) sdd] by simp_all
  have plain: "(\<forall>k \<in> set (obj_keys d). \<not> is_array_index k) \<longrightarrow> sorted (obj_keys ?d)"
    using ordered(1) key_before_plain [of "obj_keys ?d"] ed(1)
    by (auto simp: obj_keys_def)
  have plain_dev: "(\<forall>k \<in> set (obj_keys dd). \<not> is_array_index k) \<longrightarrow> sorted (obj_keys ?dd)"
    using ordered(2) key_before_plain [of "obj_keys ?dd"] edd(1)
    by (auto simp: obj_keys_def)
  have keys: "obj_keys (raw ?st) = obj_keys (raw st)"
    using k1 k2 by (simp add: obj_keys_obj_set_present)
  have others: "\<forall>k. k \<noteq> ''dependencies'' \<and> k \<noteq> ''devDependencies'' \<longrightarrow>
      obj_get (raw ?st) k = obj_get (raw st) k"
    by (simp add: obj_get_obj_set)
  have frame: "reinstall ?st = reinstall st" "configuration ?st = configuration st" "\<not> rewrite ?st"
    by simp_all
  have json': "write_json (semverValid env) (raw ?st) = Inr ?json"
    using json by simp
  have p: "obj_get ?json ''dependencies'' = JObj ?p" "obj_get ?json ''devDependencies'' = JObj ?pd"
    by (simp_all add: obj_get_obj_set)
  have dp: "distinct (obj_keys ?p)" "distinct (obj_keys ?pd)"
    by (simp_all add: distinct_obj_spread)
  have sp: "set ?p = {(key, version). (key, version) \<in> set ?d \<and> valid_version (semverValid env) version}"
    using ed(3) by (simp add: set_obj_spread_empty distinct_valid_object set_valid_object)
  have spd: "set ?pd = {(key, version). (key, version) \<in> set ?dd \<and> valid_version (semverValid env) version}"
    using edd(3) by (simp add: set_obj_spread_empty distinct_valid_object set_valid_object)
  have text_others: "distinct (obj_keys (raw st)) \<longrightarrow>
      (\<forall>k. k \<noteq> ''dependencies'' \<and> k \<noteq> ''devDependencies'' \<longrightarrow> obj_get ?json k = obj_get (raw ?st) k)"
  proof
    assume "distinct (obj_keys (raw st))"
    with keys have "distinct (obj_keys ?r)"
      by simp
    then have "map_of (obj_spread [] ?r) = map_of ?r"
      by (rule map_of_copy)
    then have "obj_get (obj_spread [] ?r) k = obj_get ?r k" for k
      by (simp add: obj_get_def)
    then show "\<forall>k. k \<noteq> ''dependencies'' \<and> k \<noteq> ''devDependencies'' \<longrightarrow>
        obj_get ?json k = obj_get (raw ?st) k"
      by (simp add: obj_get_obj_set)
  qed
  show ?thesis
  proof (rule exI [of _ ?st], rule exI [of _ ?d], rule exI [of _ ?dd], rule exI [of _ ?json],
      rule exI [of _ ?p], rule exI [of _ ?pd], intro conjI)
  qed (fact written memory sd sdd ed edd ordered plain plain_dev keys others frame json' p dp sp spd
      text_others)+
qed

theorem write_keeps_memory_witness:
  "dependencies example_manifest = JObj [(''b'', JStr ''1.0.0''), (''a'', JStr ''^2.0.0''), (''pkg'', JStr ''latest'')]
   \<and> devDependencies example_manifest = JObj [(''typescript'', JStr ''next''), (''jest'', JStr ''26.6.3'')]
   \<and> distinct (obj_keys [(''b'', JStr ''1.0.0''), (''a'', JStr ''^2.0.0''), (''pkg'', JStr ''latest'')])
   \<and> distinct (obj_keys [(''typescript'', JStr ''next''), (''jest'', JStr ''26.6.3'')])
   \<and> (\<exists>st' json persisted.
         fst (snd (write_pkg example_env example_manifest [])) = st'
       \<and> dependencies st' =
           JObj [(''a'', JStr ''^2.0.0''), (''b'', JStr ''1.0.0''), (''pkg'', JStr ''latest'')]
       \<and> \<not> rewrite st'
       \<and> write_json semver_valid (raw st') = Inr json
       \<and> obj_get json ''dependencies'' = JObj persisted
       \<and> (''b'', JStr ''1.0.0'') \<in> set persisted
       \<and> (''a'', JStr ''^2.0.0'') \<notin> set persisted
       \<and> (''pkg'', JStr ''latest'') \<notin> set persisted)
   \<and> devDependencies (fst (snd (write_pkg read_only_env example_manifest [])))
       = JObj [(''jest'', JStr ''26.6.3''), (''typescript'', JStr ''next'')]"
proof -
  let ?d = "[(''b'', JStr ''1.0.0''), (''a'', JStr ''^2.0.0''), (''pkg'', JStr ''latest'')]"
  let ?dd = "[(''typescript'', JStr ''next''), (''jest'', JStr ''26.6.3'')]"
  have h: "dependencies example_manifest = JObj ?d" "devDependencies example_manifest = JObj ?dd"
    "distinct (obj_keys ?d)" "distinct (obj_keys ?dd)"
    by (simp_all add: example_defs service_defs object_defs)
  have sorted_copy: "sortKeys (JObj ?d) =
      Inr [(''a'', JStr ''^2.0.0''), (''b'', JStr ''1.0.0''), (''pkg'', JStr ''latest'')]"
    by (simp add: partition_defs object_defs numeral_defs)
  have accepted: "valid_version semver_valid (JStr ''1.0.0'')"
    "\<not> valid_version semver_valid (JStr ''^2.0.0'')" "\<not> valid_version semver_valid (JStr ''latest'')"
    by (simp_all add: semver_defs numeral_defs)
  have check: "semverValid example_env = semver_valid"
    by (simp add: example_env_def)
  from write_keeps_memory [OF h, of example_env "[]"]
  have memory: "\<exists>st' json persisted.
         fst (snd (write_pkg example_env example_manifest [])) = st'
       \<and> dependencies st' =
           JObj [(''a'', JStr ''^2.0.0''), (''b'', JStr ''1.0.0''), (''pkg'', JStr ''latest'')]
       \<and> \<not> rewrite st'
       \<and> write_json semver_valid (raw st') = Inr json
       \<and> obj_get json ''dependencies'' = JObj persisted
       \<and> (''b'', JStr ''1.0.0'') \<in> set persisted
       \<and> (''a'', JStr ''^2.0.0'') \<notin> set persisted
       \<and> (''pkg'', JStr ''latest'') \<notin> set persisted"
  proof (elim exE conjE)
    fix st' d' json persisted
    assume w: "write_pkg example_env example_manifest [] =
        (fst (writeFileSync example_env (path example_env example_manifest) (JSON_stringify json) []), st',
         snd (writeFileSync example_env (path example_env example_manifest) (JSON_stringify json) []))"
      and d: "dependencies st' = JObj d'" and s: "sortKeys (JObj ?d) = Inr d'"
      and r: "\<not> rewrite st'"
      and j: "write_json (semverValid example_env) (raw st') = Inr json"
      and p: "obj_get json ''dependencies'' = JObj persisted"
      and sp: "set persisted =
        {(key, version). (key, version) \<in> set d' \<and> valid_version (semverValid example_env) version}"
    from s sorted_copy
    have d': "d' = [(''a'', JStr ''^2.0.0''), (''b'', JStr ''1.0.0''), (''pkg'', JStr ''latest'')]"
      by simp
    from w have "fst (snd (write_pkg example_env example_manifest [])) = st'"
      by simp
    moreover from d d' have "dependencies st' =
        JObj [(''a'', JStr ''^2.0.0''), (''b'', JStr ''1.0.0''), (''pkg'', JStr ''latest'')]"
      by simp
    moreover note r
    moreover from j check have "write_json semver_valid (raw st') = Inr json"
      by simp
    moreover note p
    moreover have "(''b'', JStr ''1.0.0'') \<in> set persisted" "(''a'', JStr ''^2.0.0'') \<notin> set persisted"
      "(''pkg'', JStr ''latest'') \<notin> set persisted"
      unfolding sp d' check using accepted by simp_all
    ultimately show ?thesis
      by (intro exI conjI)
  qed
  have failed: "devDependencies (fst (snd (write_pkg read_only_env example_manifest [])))
       = JObj [(''jest'', JStr ''26.6.3''), (''typescript'', JStr ''next'')]"
    by (simp add: example_defs read_only_env_def numeral_defs semver_defs object_defs partition_defs
        json_defs service_defs)
  from h memory failed show ?thesis
    by (intro conjI)
qed

text \<open>
  The claim C10 as it is stated fails on keys that are array indices: the dependencies
  of this manifest have the keys \<^verbatim>\<open>9\<close>, \<^verbatim>\<open>10\<close> and \<^verbatim>\<open>b\<close>, the sorted copy is built
  in the order \<^verbatim>\<open>10\<close>, \<^verbatim>\<open>9\<close>, \<^verbatim>\<open>b\<close> of the code units, and the object that
  \<^verbatim>\<open>write()\<close> leaves in memory lists \<^verbatim>\<open>9\<close> before \<^verbatim>\<open>10\<close>, which is not sorted
  order. The entry with the version \<^verbatim>\<open>next\<close> stays in memory and is missing in the
  text on disk.
\<close>

theorem index_keys_listed_by_number:
  \<open>dependencies index_manifest =
      JObj [(''9'', JStr ''1.0.0''), (''10'', JStr ''next''), (''b'', JStr ''2.0.0'')]
   \<and> sort_key fst [(''9'', JStr ''1.0.0''), (''10'', JStr ''next''), (''b'', JStr ''2.0.0'')] =
      [(''10'', JStr ''next''), (''9'', JStr ''1.0.0''), (''b'', JStr ''2.0.0'')]
   \<and> dependencies (fst (snd (write_pkg example_env index_manifest []))) =
      JObj [(''9'', JStr ''1.0.0''), (''10'', JStr ''next''), (''b'', JStr ''2.0.0'')]
   \<and> \<not> sorted [''9'', ''10'', ''b'']
   \<and> snd (snd (write_pkg example_env index_manifest [])) =
       [(''/project/package.json'',
         ''{\<newline>  "name": "demo",\<newline>  "version": "1.0.0",\<newline>  "description": "",\<newline>  "scripts": {},\<newline>  "dependencies": {\<newline>    "9": "1.0.0",\<newline>    "b": "2.0.0"\<newline>  },\<newline>  "devDependencies": {}\<newline>}'')]\<close>
  by (simp add: example_env_def index_manifest_def numeral_defs semver_defs object_defs partition_defs
      json_defs service_defs)

text \<open>
  C6, as the code has it. Every mutator that succeeds sets \<^verbatim>\<open>rewrite\<close>: the setter of
  the name, \<^verbatim>\<open>add\<close>, \<^verbatim>\<open>set\<close>, \<^verbatim>\<open>addDependency\<close>, \<^verbatim>\<open>addDevDependency\<close> and
  \<^verbatim>\<open>addScript\<close>. On a manifest whose two dependency maps are objects,
  \<^verbatim>\<open>write()\<close> clears the flag before it calls the file system, so the flag is
  false after the call whether the file write succeeds or fails.
\<close>

theorem rewrite_set_by_mutators_cleared_by_write:
  "rewrite (set_name n st) \<and> rewrite (add_field key data st) \<and> rewrite (set_field key v st)
   \<and> (addDependency pkg version st = Inr st1 \<longrightarrow> rewrite st1)
   \<and> (addDevDependency pkg version st = Inr st2 \<longrightarrow> rewrite st2)
   \<and> (addScript script cmd st = Inr st3 \<longrightarrow> rewrite st3)
   \<and> (dependencies st = JObj d \<and> devDependencies st = JObj dd \<longrightarrow>
        \<not> rewrite (fst (snd (write_pkg env st w))))"
proof -
  have "rewrite (set_name n st)" "rewrite (add_field key data st)" "rewrite (set_field key v st)"
    by (simp_all add: set_name_def add_field_def set_field_def Let_def)
  moreover have "addDependency pkg version st = Inr st1 \<longrightarrow> rewrite st1"
    by (auto simp: addDependency_def split: sum.splits)
  moreover have "addDevDependency pkg version st = Inr st2 \<longrightarrow> rewrite st2"
    by (auto simp: addDevDependency_def split: sum.splits)
  moreover have "addScript script cmd st = Inr st3 \<longrightarrow> rewrite st3"
    by (auto simp: addScript_def split: sum.splits)
  moreover have "dependencies st = JObj d \<and> devDependencies st = JObj dd \<longrightarrow>
      \<not> rewrite (fst (snd (write_pkg env st w)))"
    by (simp add: write_pkg_state)
  ultimately show ?thesis
    by blast
qed

theorem rewrite_set_by_mutators_cleared_by_write_witness:
  "dependencies example_manifest = JObj [(''b'', JStr ''1.0.0''), (''a'', JStr ''^2.0.0''), (''pkg'', JStr ''latest'')]
   \<and> devDependencies example_manifest = JObj [(''typescript'', JStr ''next''), (''jest'', JStr ''26.6.3'')]
   \<and> rewrite (set_field ''license'' (JStr ''MIT'') (example_manifest\<lparr>rewrite := False\<rparr>))
   \<and> addDependency ''c'' (JStr ''3.0.0'') (example_manifest\<lparr>rewrite := False\<rparr>)
       = Inr (example_manifest\<lparr>raw := obj_set (raw example_manifest) ''dependencies''
           (JObj [(''b'', JStr ''1.0.0''), (''a'', JStr ''^2.0.0''), (''pkg'', JStr ''latest''), (''c'', JStr ''3.0.0'')])\<rparr>)
   \<and> fst (write_pkg example_env example_manifest []) = Inr ()
   \<and> \<not> rewrite (fst (snd (write_pkg example_env example_manifest [])))"
  using rewrite_set_by_mutators_cleared_by_write
    [of "JStr ''demo''" "example_manifest\<lparr>rewrite := False\<rparr>" "''license''" "JStr ''MIT''" "JStr ''MIT''"
        "''c''" "JStr ''3.0.0''" example_manifest example_manifest "''build''" "JStr ''tsc''" example_manifest
        "[(''b'', JStr ''1.0.0''), (''a'', JStr ''^2.0.0''), (''pkg'', JStr ''latest'')]" "[(''typescript'', JStr ''next''), (''jest'', JStr ''26.6.3'')]" example_env "[]"]
  by (simp add: example_defs numeral_defs semver_defs object_defs partition_defs json_defs service_defs
      set_field_def)

text \<open>
  The claim C6 as it is stated fails when the file write fails: the example manifest
  needs a rewrite, the disk refuses the write, and the flag is false afterwards.
\<close>

theorem rewrite_cleared_by_failed_write:
  "rewrite example_manifest
   \<and> fst (write_pkg read_only_env example_manifest []) = Inl (SystemError ''EACCES: permission denied'')
   \<and> \<not> rewrite (fst (snd (write_pkg read_only_env example_manifest [])))"
  by (simp add: example_defs read_only_env_def numeral_defs semver_defs object_defs partition_defs
      json_defs service_defs)

section \<open>Substitution in version templates\<close>










text \<open>
  C2, as the code has it. The method that takes a scope is \<^verbatim>\<open>addDependencies\<close>: on a
  manifest whose dependencies are \<^verbatim>\<open>{"a": "1.0.0"}\<close>, the call
  \<^verbatim>\<open>addDependencies({b: "{{x}}"}, {x: "2.0.0"})\<close>, with a lookup that returns
  \<^verbatim>\<open>2.0.0\<close> for \<^verbatim>\<open>x\<close> in that scope, substitutes the token, calls
  \<^verbatim>\<open>addDependency("b", "2.0.0")\<close> and succeeds: the dependencies become
  \<^verbatim>\<open>{"a": "1.0.0", "b": "2.0.0"}\<close>, both flags are set, and nothing else changes.
  \<^verbatim>\<open>addDependency\<close> itself has no scope and substitutes nothing: on the same manifest
  \<^verbatim>\<open>addDependency("b", "{{x}}")\<close> stores the version \<^verbatim>\<open>{{x}}\<close> and sets both flags.
\<close>

theorem addDependencies_substitutes_scope:
  assumes "dependencies st = JObj [(''a'', JStr ''1.0.0'')]"
    and "getValue ''x'' (JObj [(''x'', JStr ''2.0.0'')]) = Inr (JStr ''2.0.0'')"
  shows "dependency_version getValue (JObj [(''x'', JStr ''2.0.0'')]) (Some ''{{x}}'') = Inr ''2.0.0''
    \<and> (\<exists>st'. addDependencies getValue [(''b'', Some ''{{x}}'')] (JObj [(''x'', JStr ''2.0.0'')]) st = Inr st'
        \<and> addDependency ''b'' (JStr ''2.0.0'') st = Inr st'
        \<and> dependencies st' = JObj [(''a'', JStr ''1.0.0''), (''b'', JStr ''2.0.0'')]
        \<and> reinstall st' \<and> rewrite st'
        \<and> st' = st\<lparr>raw := obj_set (raw st) ''dependencies''
                    (JObj [(''a'', JStr ''1.0.0''), (''b'', JStr ''2.0.0'')]),
                  reinstall := True, rewrite := True\<rparr>)
    \<and> (\<exists>st'. addDependency ''b'' (JStr ''{{x}}'') st = Inr st'
        \<and> dependencies st' = JObj [(''a'', JStr ''1.0.0''), (''b'', JStr ''{{x}}'')]
        \<and> reinstall st' \<and> rewrite st'
        \<and> st' = st\<lparr>raw := obj_set (raw st) ''dependencies''
                    (JObj [(''a'', JStr ''1.0.0''), (''b'', JStr ''{{x}}'')]),
                  reinstall := True, rewrite := True\<rparr>)"
proof -
  have version: "dependency_version getValue (JObj [(''x'', JStr ''2.0.0'')]) (Some ''{{x}}'') = Inr ''2.0.0''"
    using assms(2)
    by (simp add: dependency_version_def ctx_tsedVersion_def replace_string_def version_or_empty_def
        match_token_def is_key_char_def obj_get_def ToString_def)
  have added: "obj_set [(''a'', JStr ''1.0.0'')] ''b'' v = [(''a'', JStr ''1.0.0''), (''b'', v)]" for v
    by (simp add: obj_set_def numeral_defs)
  from assms(1) have deps: "obj_get (raw st) ''dependencies'' = JObj [(''a'', JStr ''1.0.0'')]"
    by (simp add: dependencies_def)
  have single: "addDependency ''b'' v st =
      Inr (st\<lparr>raw := obj_set (raw st) ''dependencies'' (JObj [(''a'', JStr ''1.0.0''), (''b'', v)]),
              reinstall := True, rewrite := True\<rparr>)" for v
    using deps by (simp add: addDependency_def assign_in_def added)
  have batch: "addDependencies getValue [(''b'', Some ''{{x}}'')] (JObj [(''x'', JStr ''2.0.0'')]) st =
      Inr (st\<lparr>raw := obj_set (raw st) ''dependencies''
                    (JObj [(''a'', JStr ''1.0.0''), (''b'', JStr ''2.0.0'')]),
              reinstall := True, rewrite := True\<rparr>)"
    by (simp add: addDependencies_def default_scope_def version single)
  from version batch single [of "JStr ''2.0.0''"] single [of "JStr ''{{x}}''"] show ?thesis
    by (simp add: dependencies_def obj_get_obj_set)
qed

theorem addDependencies_substitutes_scope_witness:
  "dependencies scenario_manifest = JObj [(''a'', JStr ''1.0.0'')]
   \<and> path_lookup ''x'' (JObj [(''x'', JStr ''2.0.0'')]) = Inr (JStr ''2.0.0'')
   \<and> addDependencies path_lookup [(''b'', Some ''{{x}}'')] (JObj [(''x'', JStr ''2.0.0'')]) scenario_manifest =
       Inr (scenario_manifest\<lparr>raw := [(''name'', JStr ''demo''), (''version'', JStr ''1.0.0''),
              (''description'', JStr []), (''scripts'', JObj []),
              (''dependencies'', JObj [(''a'', JStr ''1.0.0''), (''b'', JStr ''2.0.0'')]),
              (''devDependencies'', JObj [])],
            reinstall := True, rewrite := True\<rparr>)"
  using addDependencies_substitutes_scope [of scenario_manifest path_lookup]
  by (simp add: scenario_manifest_def template_defs service_defs object_defs numeral_defs ToString_def)

text \<open>
  The claim C2 as it is stated fails at its own call: \<^verbatim>\<open>addDependency("b", "{{x}}")\<close>
  on the manifest with the dependencies \<^verbatim>\<open>{"a": "1.0.0"}\<close> stores the template as it
  is, so the dependencies become \<^verbatim>\<open>{"a": "1.0.0", "b": "{{x}}"}\<close> and not
  \<^verbatim>\<open>{"a": "1.0.0", "b": "2.0.0"}\<close>. The method has the two parameters
  \<^verbatim>\<open>pkg\<close> and \<^verbatim>\<open>version\<close>; a scope passed behind them is not read.
\<close>

theorem addDependency_stores_template:
  "dependencies scenario_manifest = JObj [(''a'', JStr ''1.0.0'')]
   \<and> addDependency ''b'' (JStr ''{{x}}'') scenario_manifest =
       Inr (scenario_manifest\<lparr>raw := [(''name'', JStr ''demo''), (''version'', JStr ''1.0.0''),
              (''description'', JStr []), (''scripts'', JObj []),
              (''dependencies'', JObj [(''a'', JStr ''1.0.0''), (''b'', JStr ''{{x}}'')]),
              (''devDependencies'', JObj [])],
            reinstall := True, rewrite := True\<rparr>)
   \<and> JObj [(''a'', JStr ''1.0.0''), (''b'', JStr ''{{x}}'')]
       \<noteq> JObj [(''a'', JStr ''1.0.0''), (''b'', JStr ''2.0.0'')]"
  by (simp add: scenario_manifest_def service_defs object_defs numeral_defs)

section \<open>The install pipeline\<close>

lemma run_tasks_append:
  "run_tasks env ts1 st0 w0 = (Inr (), st, w) \<Longrightarrow>
   run_tasks env (ts1 @ ts2) st0 w0 = run_tasks env ts2 st w"
proof (induction ts1 arbitrary: st0 w0)
  case Nil
  then show ?case by simp
next
  case (Cons t ts1)
  show ?case
  proof (cases "\<not> enabled t st0 \<or> skip t st0")
    case True
    with Cons show ?thesis by auto
  next
    case False
    obtain res st1 w1 where r: "run_action env (task t) st0 w0 = (res, st1, w1)"
      by (cases "run_action env (task t) st0 w0") auto
    show ?thesis
    proof (cases res)
      case (Inl e)
      with False r Cons.prems show ?thesis by simp
    next
      case (Inr u)
      with False r Cons.prems have "run_tasks env ts1 st1 w1 = (Inr (), st, w)"
        by simp
      from Cons.IH [OF this] False r Inr show ?thesis
        by simp
    qed
  qed
qed

lemma run_tasks_failure:
  "enabled t st \<Longrightarrow> \<not> skip t st \<Longrightarrow> run_action env (task t) st w = (Inl e, st', w') \<Longrightarrow>
   run_tasks env (t # ts) st w = (Inl e, st', w')"
  by simp

text \<open>
  C7. Every task that \<^verbatim>\<open>installWithYarn\<close> builds runs yarn through
  \<^verbatim>\<open>errorPipe()\<close>, every task that \<^verbatim>\<open>installWithNpm\<close> builds runs npm without a
  pipe. When the tasks before it have run and a task is neither disabled nor skipped and
  its command fails, the run fails at once with the failure of that task. Through
  \<^verbatim>\<open>errorPipe()\<close> that failure is an \<^verbatim>\<open>Error\<close> with exactly the lockfile message
  when the stderr of the command starts with the lockfile signature, and the error of the
  command itself otherwise; without the pipe it is always the error of the command.
\<close>

theorem yarn_lockfile_error_translated:
  assumes "run_tasks env before st0 w0 = (Inr (), st, w)"
    and "enabled t st" and "\<not> skip t st"
    and "run env cmd args cwd w = (Inl error, w')"
  shows "(installWithYarn valid s options = Inr yarn_tasks \<longrightarrow>
            list_all (\<lambda>t. \<exists>args cwd. task t = Call_run_errorPipe ''yarn'' args cwd) yarn_tasks)
    \<and> (installWithNpm valid s options = Inr npm_tasks \<longrightarrow>
            list_all (\<lambda>t. \<exists>args cwd. task t = Call_run ''npm'' args cwd) npm_tasks)
    \<and> (task t = Call_run_errorPipe cmd args cwd \<longrightarrow>
          run_tasks env (before @ t # after) st0 w0 =
            (Inl (if prefix ''error Your lockfile needs to be updated'' (stderr error)
                  then Error ''yarn.lock file is outdated. Run yarn, commit the updated lockfile and try again.''
                  else ProcessError error), st, w'))
    \<and> (task t = Call_run cmd args cwd \<longrightarrow>
          run_tasks env (before @ t # after) st0 w0 = (Inl (ProcessError error), st, w'))"
proof -
  have yarn: "installWithYarn valid s options = Inr yarn_tasks \<longrightarrow>
      list_all (\<lambda>t. \<exists>args cwd. task t = Call_run_errorPipe ''yarn'' args cwd) yarn_tasks"
    by (auto simp: installWithYarn_def split: sum.splits)
  have npm: "installWithNpm valid s options = Inr npm_tasks \<longrightarrow>
      list_all (\<lambda>t. \<exists>args cwd. task t = Call_run ''npm'' args cwd) npm_tasks"
    by (auto simp: installWithNpm_def split: sum.splits)
  have rest: "run_tasks env (before @ t # after) st0 w0 = run_tasks env (t # after) st w"
    using assms(1) by (rule run_tasks_append)
  have piped: "task t = Call_run_errorPipe cmd args cwd \<longrightarrow>
      run_tasks env (before @ t # after) st0 w0 = (Inl (errorPipe error), st, w')"
    using assms(2-4) by (simp add: rest run_action_def)
  have plain: "task t = Call_run cmd args cwd \<longrightarrow>
      run_tasks env (before @ t # after) st0 w0 = (Inl (ProcessError error), st, w')"
    using assms(2-4) by (simp add: rest run_action_def)
  from yarn npm piped plain show ?thesis
    by (simp add: errorPipe_def)
qed

theorem yarn_lockfile_error_translated_witness:
  "run_tasks stale_lockfile_env [] example_manifest [] = (Inr (), example_manifest, [])
   \<and> enabled \<lparr>title = ''Installing dependencies using Yarn'', enabled = (\<lambda>s. True),
        skip = (\<lambda>s. \<not> reinstall s),
        task = Call_run_errorPipe ''yarn'' [''install'', ''--production=false''] ''/project''\<rparr> example_manifest
   \<and> \<not> skip \<lparr>title = ''Installing dependencies using Yarn'', enabled = (\<lambda>s. True),
        skip = (\<lambda>s. \<not> reinstall s),
        task = Call_run_errorPipe ''yarn'' [''install'', ''--production=false''] ''/project''\<rparr> example_manifest
   \<and> fst (run stale_lockfile_env ''yarn'' [''install'', ''--production=false''] ''/project'' []) =
       Inl (ExecaError ''Command failed with exit code 1''
             ''error Your lockfile needs to be updated, but yarn was run with --frozen-lockfile.'')
   \<and> fst (run_tasks stale_lockfile_env
         [\<lparr>title = ''Installing dependencies using Yarn'', enabled = (\<lambda>s. True),
           skip = (\<lambda>s. \<not> reinstall s),
           task = Call_run_errorPipe ''yarn'' [''install'', ''--production=false''] ''/project''\<rparr>]
         example_manifest []) =
       Inl (Error ''yarn.lock file is outdated. Run yarn, commit the updated lockfile and try again.'')
   \<and> (case install stale_lockfile_env \<lparr>packageManager = Some Yarn, verbose = False\<rparr> example_manifest [] of
         (Inl e, w) \<Rightarrow> Inl e
       | (Inr tasks, w) \<Rightarrow> fst (run_tasks stale_lockfile_env tasks example_manifest w)) =
       Inl (Error ''yarn.lock file is outdated. Run yarn, commit the updated lockfile and try again.'')
   \<and> (case install stale_lockfile_env \<lparr>packageManager = Some Npm, verbose = False\<rparr> example_manifest [] of
         (Inl e, w) \<Rightarrow> Inl e
       | (Inr tasks, w) \<Rightarrow> fst (run_tasks stale_lockfile_env tasks example_manifest w)) =
       Inl (ProcessError (ExecaError ''Command failed with exit code 1''
             ''error Your lockfile needs to be updated, but yarn was run with --frozen-lockfile.''))"
  using yarn_lockfile_error_translated
    [of stale_lockfile_env "[]" example_manifest "[]" example_manifest "[]"
        "\<lparr>title = ''Installing dependencies using Yarn'', enabled = (\<lambda>s. True),
          skip = (\<lambda>s. \<not> reinstall s),
          task = Call_run_errorPipe ''yarn'' [''install'', ''--production=false''] ''/project''\<rparr>"
        "''yarn''" "[''install'', ''--production=false'']" "''/project''"
        "ExecaError ''Command failed with exit code 1''
           ''error Your lockfile needs to be updated, but yarn was run with --frozen-lockfile.''"
        "[]" semver_valid example_manifest "\<lparr>packageManager = Some Yarn, verbose = False\<rparr>" "[]" "[]" "[]"]
  by (simp add: stale_lockfile_env_def example_defs install_defs service_defs object_defs
        partition_defs semver_defs numeral_defs json_defs)

text \<open>
  C8. \<^verbatim>\<open>install()\<close> takes yarn for the package manager when the options name none.
  Whenever yarn is the one asked for, by name or by default, and the probe
  \<^verbatim>\<open>yarn --version\<close> throws, whatever the error, \<^verbatim>\<open>install()\<close> does not fail
  with it: the package manager becomes npm and the task list is the task "Write
  package.json", the tasks of \<^verbatim>\<open>installWithNpm\<close> and the task "Clean". When the probe
  returns, the tasks in the middle are those of \<^verbatim>\<open>installWithYarn\<close>.
\<close>

theorem install_falls_back_to_npm:
  assumes "packageManager options = None \<or> packageManager options = Some Yarn"
  shows "install env (options\<lparr>packageManager := None\<rparr>) st w
       = install env (options\<lparr>packageManager := Some Yarn\<rparr>) st w
    \<and> (runSync env ''yarn'' [''--version''] w = (Inl e, w') \<longrightarrow>
          select_packageManager env options w = (Npm, w')
        \<and> install env options st w =
            (case installWithNpm (semverValid env) st options of
               Inl err \<Rightarrow> (Inl err, w')
             | Inr tasks \<Rightarrow>
                 (Inr ([\<lparr>title = ''Write package.json'', enabled = (\<lambda>s. rewrite s),
                         skip = (\<lambda>s. False), task = Call_write\<rparr>]
                       @ tasks
                       @ [\<lparr>title = ''Clean'', enabled = (\<lambda>s. True),
                           skip = (\<lambda>s. False), task = Call_clean\<rparr>]), w')))
    \<and> (runSync env ''yarn'' [''--version''] w = (Inr u, w') \<longrightarrow>
          select_packageManager env options w = (Yarn, w')
        \<and> install env options st w =
            (case installWithYarn (semverValid env) st options of
               Inl err \<Rightarrow> (Inl err, w')
             | Inr tasks \<Rightarrow>
                 (Inr ([\<lparr>title = ''Write package.json'', enabled = (\<lambda>s. rewrite s),
                         skip = (\<lambda>s. False), task = Call_write\<rparr>]
                       @ tasks
                       @ [\<lparr>title = ''Clean'', enabled = (\<lambda>s. True),
                           skip = (\<lambda>s. False), task = Call_clean\<rparr>]), w')))"
proof -
  have requested: "(case packageManager options of None \<Rightarrow> Yarn | Some pm \<Rightarrow> pm) = Yarn"
    using assms by auto
  have default: "install env (options\<lparr>packageManager := None\<rparr>) st w
      = install env (options\<lparr>packageManager := Some Yarn\<rparr>) st w"
  proof -
    have "installWithYarn (semverValid env) st (options\<lparr>packageManager := None\<rparr>)
        = installWithYarn (semverValid env) st (options\<lparr>packageManager := Some Yarn\<rparr>)"
      by (simp add: installWithYarn_def split: sum.splits)
    moreover have "installWithNpm (semverValid env) st (options\<lparr>packageManager := None\<rparr>)
        = installWithNpm (semverValid env) st (options\<lparr>packageManager := Some Yarn\<rparr>)"
      by (simp add: installWithNpm_def split: sum.splits)
    ultimately show ?thesis
      by (simp add: install_def select_packageManager_def split: prod.splits)
  qed
  have failed: "runSync env ''yarn'' [''--version''] w = (Inl e, w') \<longrightarrow>
      select_packageManager env options w = (Npm, w')"
    by (simp add: select_packageManager_def requested hasYarn_def)
  have found: "runSync env ''yarn'' [''--version''] w = (Inr u, w') \<longrightarrow>
      select_packageManager env options w = (Yarn, w')"
    by (simp add: select_packageManager_def requested hasYarn_def)
  from default failed found show ?thesis
    by (auto simp: install_def split: sum.splits)
qed

theorem install_falls_back_to_npm_witness:
  "(packageManager \<lparr>packageManager = None, verbose = False\<rparr> = None
      \<or> packageManager \<lparr>packageManager = None, verbose = False\<rparr> = Some Yarn)
   \<and> runSync no_yarn_env ''yarn'' [''--version''] [] = (Inl (SystemError ''spawnSync yarn ENOENT''), [])
   \<and> select_packageManager no_yarn_env \<lparr>packageManager = None, verbose = False\<rparr> [] = (Npm, [])
   \<and> (case install no_yarn_env \<lparr>packageManager = None, verbose = False\<rparr> example_manifest [] of
         (Inl e, w) \<Rightarrow> []
       | (Inr tasks, w) \<Rightarrow> map (\<lambda>t. (title t, task t)) tasks) =
       [(''Write package.json'', Call_write),
        (''Installing dependencies using npm'',
           Call_run ''npm'' [''install'', ''--no-production''] ''/project''),
        (''Add dependencies using npm'',
           Call_run ''npm'' [''install'', ''--save'', ''a@^2.0.0'', ''pkg''] ''/project''),
        (''Add devDependencies using npm'',
           Call_run ''npm'' [''install'', ''--save-dev'', ''typescript@next''] ''/project''),
        (''Clean'', Call_clean)]"
  using install_falls_back_to_npm
    [of "\<lparr>packageManager = None, verbose = False\<rparr>" no_yarn_env example_manifest "[]"
        "SystemError ''spawnSync yarn ENOENT''" "[]"]
  by (simp add: no_yarn_env_def example_defs install_defs service_defs object_defs
        partition_defs semver_defs numeral_defs)

lemma invalid_entries_update:
  assumes "invalid_entries valid d = []" and "\<not> valid_version valid v"
    and "distinct (obj_keys d)" and "k \<in> set (obj_keys d)"
  shows "invalid_entries valid (map (\<lambda>(k', v'). if k' = k then (k', v) else (k', v')) d) = [(k, v)]"
  using assms
proof (induction d)
  case Nil
  then show ?case by simp
next
  case (Cons e d)
  obtain k' v' where e: "e = (k', v')" by (cases e)
  from Cons.prems(1) have ve: "valid_version valid v'" and rest: "invalid_entries valid d = []"
    by (simp_all add: invalid_entries_def e split: if_splits)
  show ?case
  proof (cases "k' = k")
    case True
    with Cons.prems(3) have "k \<notin> set (obj_keys d)"
      by (simp add: e)
    then have "map (\<lambda>(k', v'). if k' = k then (k', v) else (k', v')) d = d"
      by (induction d) auto
    with True rest Cons.prems(2) show ?thesis
      by (simp add: invalid_entries_def e)
  next
    case False
    with Cons.prems(3,4) have "distinct (obj_keys d)" "k \<in> set (obj_keys d)"
      by (simp_all add: e)
    from Cons.IH [OF rest Cons.prems(2) this] False ve show ?thesis
      by (simp add: invalid_entries_def e)
  qed
qed

lemma invalid_entries_insert_index:
  "invalid_entries valid d = [] \<Longrightarrow> \<not> valid_version valid v \<Longrightarrow>
   invalid_entries valid (insert_index k v d) = [(k, v)]"
  by (induction k v d rule: insert_index.induct) (auto simp: invalid_entries_def split: if_splits)

lemma invalid_entries_obj_set:
  assumes "invalid_entries valid d = []" and "\<not> valid_version valid v" and "distinct (obj_keys d)"
  shows "invalid_entries valid (obj_set d k v) = [(k, v)]"
proof (cases "k \<in> set (obj_keys d)")
  case True
  with assms show ?thesis
    by (simp add: obj_set_def invalid_entries_update)
next
  case False
  with assms(1,2) show ?thesis
    by (simp add: obj_set_def invalid_entries_insert_index) (simp add: invalid_entries_def)
qed

text \<open>
  C9. The install targets of a dependency map are the texts of its entries that the
  version check rejects, in the order of the map; the text of an entry whose version is
  exactly \<^verbatim>\<open>latest\<close> is the bare package name, and the text of an entry with any
  other version string is \<^verbatim>\<open>name@version\<close>. In particular, on a manifest whose
  dependencies are all accepted by the check, after \<^verbatim>\<open>addDependency(pkg, "latest")\<close>
  with a package name that is not the empty string (which \<^verbatim>\<open>filter(Boolean)\<close> drops)
  the targets are exactly \<^verbatim>\<open>[pkg]\<close>, and the task "Add dependencies using npm" of
  \<^verbatim>\<open>installWithNpm\<close> is not skipped and runs \<^verbatim>\<open>npm install --save\<close>, with
  \<^verbatim>\<open>--verbose\<close> if asked for, on that one target.
\<close>

theorem latest_target_is_bare_name:
  assumes "\<not> valid ''latest''" and "pkg \<noteq> []"
    and "dependencies st = JObj d" and "devDependencies st = JObj dd"
    and "invalid_entries valid d = []" and "distinct (obj_keys d)"
  shows "toString (n, JStr ''latest'') = n
    \<and> (version \<noteq> ''latest'' \<longrightarrow> toString (n, JStr version) = n @ ''@'' @ version)
    \<and> mapPackagesWithInvalidVersion valid (JObj deps) = Inr (map toString (invalid_entries valid deps))
    \<and> (\<exists>st' t1 t2 t3. addDependency pkg (JStr ''latest'') st = Inr st'
        \<and> mapPackagesWithInvalidVersion valid (dependencies st') = Inr [pkg]
        \<and> installWithNpm valid st' options = Inr [t1, t2, t3]
        \<and> title t2 = ''Add dependencies using npm'' \<and> enabled t2 st' \<and> \<not> skip t2 st'
        \<and> task t2 = Call_run ''npm'' ([''install'', ''--save''] @ verbose_flag (verbose options) @ [pkg]) (dir st'))"
proof -
  let ?d = "obj_set d pkg (JStr ''latest'')"
  let ?st = "st\<lparr>raw := obj_set (raw st) ''dependencies'' (JObj ?d), reinstall := True, rewrite := True\<rparr>"
  have texts: "toString (n, JStr ''latest'') = n"
    "version \<noteq> ''latest'' \<longrightarrow> toString (n, JStr version) = n @ ''@'' @ version"
    by (simp_all add: toString_def join_at_def ToString_def)
  have targets: "mapPackagesWithInvalidVersion valid (JObj deps) = Inr (map toString (invalid_entries valid deps))"
    by (rule mapPackagesWithInvalidVersion_JObj)
  have added: "addDependency pkg (JStr ''latest'') st = Inr ?st"
    using assms(3) by (simp add: addDependency_def assign_in_def dependencies_def)
  have deps: "dependencies ?st = JObj ?d" and devDeps: "devDependencies ?st = JObj dd"
    using assms(4) by (simp_all add: dependencies_def devDependencies_def obj_get_obj_set)
  have "invalid_entries valid ?d = [(pkg, JStr ''latest'')]"
    using assms(5) _ assms(6) by (rule invalid_entries_obj_set) (simp add: valid_version_def assms(1))
  then have one: "mapPackagesWithInvalidVersion valid (dependencies ?st) = Inr [pkg]"
    by (simp add: deps mapPackagesWithInvalidVersion_JObj toString_def)
  have flags: "filter_Boolean ([''install'', ''--save''] @ verbose_flag (verbose options) @ [pkg])
      = [''install'', ''--save''] @ verbose_flag (verbose options) @ [pkg]"
    using assms(2) by (simp add: filter_Boolean_def verbose_flag_def)
  obtain t1 t2 t3 where tasks: "installWithNpm valid ?st options = Inr [t1, t2, t3]"
    and t2: "title t2 = ''Add dependencies using npm''" "enabled t2 ?st" "\<not> skip t2 ?st"
      "task t2 = Call_run ''npm'' ([''install'', ''--save''] @ verbose_flag (verbose options) @ [pkg]) (dir ?st)"
    using flags by (simp add: installWithNpm_def one devDeps mapPackagesWithInvalidVersion_JObj)
  with texts targets added one show ?thesis
    by blast
qed

theorem latest_target_is_bare_name_witness:
  "\<not> semver_valid ''latest'' \<and> ''pkg'' \<noteq> []
   \<and> dependencies scenario_manifest = JObj [(''a'', JStr ''1.0.0'')]
   \<and> devDependencies scenario_manifest = JObj []
   \<and> invalid_entries semver_valid [(''a'', JStr ''1.0.0'')] = []
   \<and> distinct (obj_keys [(''a'', JStr ''1.0.0'')])
   \<and> mapPackagesWithInvalidVersion semver_valid
        (JObj [(''pkg'', JStr ''latest''), (''typescript'', JStr ''next''), (''a'', JStr ''1.0.0'')])
       = Inr [''pkg'', ''typescript@next'']
   \<and> (case addDependency ''pkg'' (JStr ''latest'') scenario_manifest of
         Inl e \<Rightarrow> []
       | Inr st' \<Rightarrow> (case installWithNpm semver_valid st' \<lparr>packageManager = Some Npm, verbose = False\<rparr> of
             Inl e \<Rightarrow> []
           | Inr tasks \<Rightarrow> map (\<lambda>t. (title t, skip t st', task t)) tasks)) =
       [(''Installing dependencies using npm'', False,
           Call_run ''npm'' [''install'', ''--no-production''] ''/project''),
        (''Add dependencies using npm'', False,
           Call_run ''npm'' [''install'', ''--save'', ''pkg''] ''/project''),
        (''Add devDependencies using npm'', True,
           Call_run ''npm'' [''install'', ''--save-dev''] ''/project'')]"
  using latest_target_is_bare_name
    [of semver_valid "''pkg''" scenario_manifest "[(''a'', JStr ''1.0.0'')]" "[]"
        "''pkg''" "''next''"
        "[(''pkg'', JStr ''latest''), (''typescript'', JStr ''next''), (''a'', JStr ''1.0.0'')]"
        "\<lparr>packageManager = Some Npm, verbose = False\<rparr>"]
  by (simp add: scenario_manifest_def install_defs service_defs object_defs
        partition_defs semver_defs numeral_defs)

end
